theory Spec2Isabelle
  imports Main "HOL-Library.Char_ord" "HOL-Library.List_Lexorder"
begin

section \<open>The scheduler of \<^verbatim>\<open>rplugin/python3/wilder/__init__.py\<close>\<close>

text \<open>
  The plugin class \<^verbatim>\<open>Wilder\<close> owns a result queue, a list of pending
  \<^verbatim>\<open>threading.Event\<close> objects, a lock, a thread pool and the last admitted
  \<^verbatim>\<open>run_id\<close>. The model is a record of that state; every method is a function
  that takes the state and returns the new one, with the exception it raises (if any).
  The lock makes each critical section one atomic function.
\<close>

subsection \<open>Values, contexts, exceptions\<close>

text \<open>Values that travel between the host and the plugin (msgpack).\<close>

datatype pyval = PStr string | PInt int | PList "pyval list"

text \<open>The request context: a dictionary with \<^verbatim>\<open>run_id\<close>, \<^verbatim>\<open>step\<close>
  and fields the plugin never reads.\<close>

record ctx =
  ctx_run_id :: int
  ctx_step :: int
  ctx_rest :: nat

datatype exn_kind =
  AttributeError | ValueError | TypeError | KeyError | ImportError
  | ReError | OSError | FileNotFoundError | UnicodeEncodeError

text \<open>An exception: its class and \<^verbatim>\<open>str(e)\<close>.\<close>

datatype py_exn = PyExn exn_kind string

text \<open>A name between single quotes, as the interpreter's messages print it.\<close>

definition quoted :: "string \<Rightarrow> string" where
  "quoted s = CHR 0x27 # s @ [CHR 0x27]"

fun exn_str :: "py_exn \<Rightarrow> string" where
  "exn_str (PyExn k m) = m"

fun exn_kind_of :: "py_exn \<Rightarrow> exn_kind" where
  "exn_kind_of (PyExn k m) = k"

text \<open>A \<^verbatim>\<open>threading.Event\<close> is known by its identity: the n-th object
  constructed. Its flag lives in the set of cancelled tokens.\<close>

type_synonym token = nat

record search_opts =
  engine :: "string option"
  max_candidates :: "int option"

text \<open>What \<^verbatim>\<open>run_in_background\<close> receives: the handler and its
  argument list, whose first element is the context.\<close>

datatype request =
  Sleep_req ctx int pyval
  | Search_req ctx search_opts string "string list"
  | Uniq_req ctx "pyval list"
  | Sort_req ctx "pyval list"
  | File_req ctx string string string bool string "string list" string
  | Users_req ctx string string
  | Filter_req ctx string "string list" string bool
  | Fuzzy_req ctx "string list" string bool

fun req_ctx :: "request \<Rightarrow> ctx" where
  "req_ctx (Sleep_req c t x) = c"
| "req_ctx (Search_req c opts x buf) = c"
| "req_ctx (Uniq_req c candidates) = c"
| "req_ctx (Sort_req c candidates) = c"
| "req_ctx (File_req c wd expand_arg expand_type has_wildcard path_prefix dirs wildignore) = c"
| "req_ctx (Users_req c expand_arg expand_type) = c"
| "req_ctx (Filter_req c pattern candidates eng has_file_args) = c"
| "req_ctx (Fuzzy_req c candidates query partial) = c"

text \<open>A queue entry is the tuple a handler puts: \<^verbatim>\<open>(ctx, res)\<close> or
  \<^verbatim>\<open>(ctx, res, command)\<close>.\<close>

record entry =
  e_ctx :: ctx
  e_res :: pyval
  e_command :: "string option"

text \<open>The thread pool: its size and the closures submitted to it, each the
  handler's request with the event bound as first argument.\<close>

record pool =
  max_workers :: int
  tasks :: "(token \<times> request) list"

text \<open>
  The result queue is a \<^verbatim>\<open>multiprocessing.Queue\<close>: \<^verbatim>\<open>put\<close> leaves the entry
  in a buffer of the queue, and a feeder thread of the queue writes the buffered entries
  to a pipe, in the order they were put; \<^verbatim>\<open>get\<close>, \<^verbatim>\<open>empty\<close> and
  \<^verbatim>\<open>get_nowait\<close> read the pipe. The state holds the entries put and not yet taken,
  oldest first (\<open>queue\<close>), and how many of them, from the front, are in the pipe
  (\<open>in_pipe\<close>).
\<close>

record wilder =
  has_init :: bool
  queue :: "entry list"
  in_pipe :: nat
  events :: "token list"
  executor :: "pool option"
  run_id :: int
  cancelled :: "token set"
  next_event :: nat
  consumers :: nat

text \<open>\<^verbatim>\<open>Wilder.__init__\<close>; no event exists, no thread runs.\<close>

definition wilder_new :: wilder where
  "wilder_new =
     \<lparr> has_init = False, queue = [], in_pipe = 0, events = [], executor = None,
       run_id = - 1, cancelled = {}, next_event = 0, consumers = 0 \<rparr>"

subsection \<open>Admission: \<^verbatim>\<open>run_in_background\<close>\<close>

text \<open>The loop \<^verbatim>\<open>while len(self.events) > 0: e = self.events.pop(0); e.set()\<close>:
  it returns the events left (none) and the flags.\<close>

fun cancel_events :: "token list \<Rightarrow> token set \<Rightarrow> token list \<times> token set" where
  "cancel_events [] fl = ([], fl)"
| "cancel_events (e # es) fl = cancel_events es (insert e fl)"

text \<open>
  \<^verbatim>\<open>
  def run_in_background(self, fn, args):
      event = threading.Event()
      ctx = args[0]
      with self.lock:
          if ctx['run_id'] < self.run_id:
              return
          self.run_id = ctx['run_id']
          while len(self.events) > 0:
              e = self.events.pop(0)
              e.set()
          self.events.append(event)
      self.executor.submit(functools.partial( fn, *([event] + args), ))
  \<close>
  The event is constructed before the lock is taken. Before \<^verbatim>\<open>init\<close> the
  executor is \<^verbatim>\<open>None\<close> and the last line raises \<^verbatim>\<open>AttributeError\<close>.
\<close>

definition run_in_background :: "wilder \<Rightarrow> request \<Rightarrow> wilder \<times> py_exn option" where
  "run_in_background s r =
     (let event = next_event s;
          s0 = s\<lparr>next_event := Suc event\<rparr>;
          c = req_ctx r
      in if ctx_run_id c < run_id s0 then (s0, None)
         else
           let s1 = s0\<lparr>run_id := ctx_run_id c\<rparr>;
               (es, fl) = cancel_events (events s1) (cancelled s1);
               s2 = s1\<lparr>events := es, cancelled := fl\<rparr>;
               s3 = s2\<lparr>events := events s2 @ [event]\<rparr>
           in case executor s3 of
                None \<Rightarrow>
                  (s3, Some (PyExn AttributeError
                     (quoted ''NoneType'' @ '' object has no attribute '' @ quoted ''submit'')))
              | Some p \<Rightarrow>
                  (s3\<lparr>executor := Some (p\<lparr>tasks := tasks p @ [(event, r)]\<rparr>)\<rparr>, None))"

text \<open>A sequence of submissions, one after the other.\<close>

definition submit_all :: "wilder \<Rightarrow> request list \<Rightarrow> wilder" where
  "submit_all s rs = fold (\<lambda>r st. fst (run_in_background st r)) rs s"

text \<open>The closures the pool has received (none before \<^verbatim>\<open>init\<close>).\<close>

definition submitted :: "wilder \<Rightarrow> (token \<times> request) list" where
  "submitted s = (case executor s of None \<Rightarrow> [] | Some p \<Rightarrow> tasks p)"

text \<open>The specification's reading of admission, in its own words: of a sequence of
  submissions, those whose run id is at least the maximum seen so far.\<close>

fun spec_admitted :: "int \<Rightarrow> request list \<Rightarrow> request list" where
  "spec_admitted m [] = []"
| "spec_admitted m (r # rs) =
     (if ctx_run_id (req_ctx r) < m then spec_admitted m rs
      else r # spec_admitted (max m (ctx_run_id (req_ctx r))) rs)"

subsection \<open>Initialisation: \<^verbatim>\<open>init\<close>\<close>

record init_opts =
  num_workers :: int

text \<open>
  \<^verbatim>\<open>
  def init(self, args):
      if self.has_init:
          return
      self.has_init = True
      opts = args[0]
      self.executor = concurrent.futures.ThreadPoolExecutor(max_workers=opts['num_workers'])
      t = threading.Thread(target=self.consumer, daemon=True)
      t.start()
  \<close>
  \<^verbatim>\<open>ThreadPoolExecutor\<close> raises \<^verbatim>\<open>ValueError\<close> for a size that is not
  positive; the flag is set by then.
\<close>

definition init :: "wilder \<Rightarrow> init_opts \<Rightarrow> wilder \<times> py_exn option" where
  "init s opts =
     (if has_init s then (s, None)
      else
        let s1 = s\<lparr>has_init := True\<rparr>
        in if num_workers opts \<le> 0
           then (s1, Some (PyExn ValueError ''max_workers must be greater than 0''))
           else
             (s1\<lparr>executor := Some \<lparr> max_workers = num_workers opts, tasks = [] \<rparr>,
                 consumers := Suc (consumers s1)\<rparr>, None))"

definition init_all :: "wilder \<Rightarrow> init_opts list \<Rightarrow> wilder" where
  "init_all s os = fold (\<lambda>opts st. fst (init st opts)) os s"

subsection \<open>Delivery: \<^verbatim>\<open>consumer\<close>\<close>

text \<open>The test of the drain loop:
  \<^verbatim>\<open>new_ctx['run_id'] > ctx['run_id'] or (new_ctx['run_id'] == ctx['run_id'] and new_ctx['step'] > ctx['step'])\<close>.\<close>

definition newer :: "ctx \<Rightarrow> ctx \<Rightarrow> bool" where
  "newer new_ctx c \<longleftrightarrow>
     ctx_run_id new_ctx > ctx_run_id c
     \<or> (ctx_run_id new_ctx = ctx_run_id c \<and> ctx_step new_ctx > ctx_step c)"

text \<open>The inner loop \<^verbatim>\<open>while not self.queue.empty()\<close> over the entries
  it finds in the pipe.\<close>

fun drain :: "entry \<Rightarrow> entry list \<Rightarrow> entry" where
  "drain args [] = args"
| "drain args (new_args # q) =
     (if newer (e_ctx new_args) (e_ctx args) then drain new_args q else drain args q)"

text \<open>What the host is called with: \<^verbatim>\<open>wilder#pipeline#\<close> and the command,
  the first argument and the result. The first argument is a context, except on the
  fast path of \<^verbatim>\<open>search\<close>, which passes \<^verbatim>\<open>args[1]\<close>.\<close>

datatype harg = HCtx ctx | HOpts search_opts

record host_call =
  h_function :: string
  h_ctx :: harg
  h_res :: pyval

text \<open>\<^verbatim>\<open>handle(self, ctx, x, command='resolve')\<close>.\<close>

definition handle :: "harg \<Rightarrow> pyval \<Rightarrow> string \<Rightarrow> host_call" where
  "handle c x command =
     \<lparr> h_function = ''wilder#pipeline#'' @ command, h_ctx = c, h_res = x \<rparr>"

text \<open>The end of a cycle: a tuple of three names its command.\<close>

definition deliver :: "entry \<Rightarrow> host_call" where
  "deliver args =
     (case e_command args of
        Some command \<Rightarrow> handle (HCtx (e_ctx args)) (e_res args) command
      | None \<Rightarrow> handle (HCtx (e_ctx args)) (e_res args) ''resolve'')"

text \<open>The feeder thread of the queue writes the oldest buffered entry to the pipe.\<close>

definition feed :: "wilder \<Rightarrow> wilder" where
  "feed s = (if in_pipe s < length (queue s) then s\<lparr>in_pipe := Suc (in_pipe s)\<rparr> else s)"

text \<open>
  One cycle of \<^verbatim>\<open>while True\<close>. The feeder thread runs beside the consumer:
  \<open>feeds\<close> is the number of entries it writes to the pipe from the moment the cycle
  starts until the call of \<^verbatim>\<open>empty()\<close> that ends the drain loop. The cycle sees
  the entries in the pipe at its start and those: \<^verbatim>\<open>self.queue.get()\<close> blocks while
  there is none (no step: \<open>None\<close>); otherwise the cycle takes them all, leaves the
  entries still buffered in the queue, and calls the host once. What the feeder thread
  writes after that call of \<^verbatim>\<open>empty()\<close> counts for the next cycle.
\<close>

definition consumer_cycle :: "wilder \<Rightarrow> nat \<Rightarrow> (wilder \<times> host_call) option" where
  "consumer_cycle s feeds =
     (case take (in_pipe s + feeds) (queue s) of
        [] \<Rightarrow> None
      | args # q \<Rightarrow>
          Some (s\<lparr>queue := drop (in_pipe s + feeds) (queue s), in_pipe := 0\<rparr>,
                deliver (drain args q)))"

text \<open>The order on contexts: \<open>(run_id, step)\<close>, lexicographic.\<close>

definition ctx_key :: "ctx \<Rightarrow> int \<times> int" where
  "ctx_key c = (ctx_run_id c, ctx_step c)"

definition key_le :: "int \<times> int \<Rightarrow> int \<times> int \<Rightarrow> bool" where
  "key_le a b \<longleftrightarrow> fst a < fst b \<or> (fst a = fst b \<and> snd a \<le> snd b)"

text \<open>A queue entry with a given \<open>(run_id, step)\<close>, for the examples.\<close>

definition ex_entry :: "int \<Rightarrow> int \<Rightarrow> pyval \<Rightarrow> entry" where
  "ex_entry r st x =
     \<lparr> e_ctx = \<lparr> ctx_run_id = r, ctx_step = st, ctx_rest = 0 \<rparr>, e_res = x, e_command = None \<rparr>"

text \<open>Tokens are handed out in order: every token that is pending or cancelled has
  been constructed. True of \<open>wilder_new\<close> and kept by every method.\<close>

definition tokens_fresh :: "wilder \<Rightarrow> bool" where
  "tokens_fresh s \<longleftrightarrow>
     (\<forall>e\<in>set (events s). e < next_event s) \<and> (\<forall>e\<in>cancelled s. e < next_event s)"

text \<open>The pending tokens whose flag is not set.\<close>

definition live_tokens :: "wilder \<Rightarrow> token list" where
  "live_tokens s = filter (\<lambda>e. e \<notin> cancelled s) (events s)"

text \<open>Requests of the sleep handler with a given run id, for the examples.\<close>

definition ex_req :: "int \<Rightarrow> int \<Rightarrow> request" where
  "ex_req r st = Sleep_req \<lparr> ctx_run_id = r, ctx_step = st, ctx_rest = 0 \<rparr> 0 (PInt st)"

text \<open>The plugin after \<^verbatim>\<open>init\<close> with two workers.\<close>

definition ex_started :: wilder where
  "ex_started = fst (init wilder_new \<lparr> num_workers = 2 \<rparr>)"

subsection \<open>The interpreter's library\<close>

text \<open>
  The handlers call modules that are not part of the plugin: the regular expression
  engine named by the request, \<^verbatim>\<open>fuzzywuzzy.fuzz\<close>, \<^verbatim>\<open>pwd\<close>, \<^verbatim>\<open>os\<close>,
  \<^verbatim>\<open>glob\<close>, \<^verbatim>\<open>fnmatch\<close> and \<^verbatim>\<open>pathlib\<close>. They are parameters of the model,
  gathered in one record; a call that can raise returns a sum.
\<close>

text \<open>A compiled pattern: \<^verbatim>\<open>match.group()\<close> of every match of
  \<^verbatim>\<open>pattern.finditer(line)\<close>, and whether \<^verbatim>\<open>pattern.search(x)\<close> finds a match.\<close>

record compiled =
  finditer :: "string \<Rightarrow> string list"
  search_in :: "string \<Rightarrow> bool"

text \<open>A match object as \<^verbatim>\<open>extract_captures\<close> reads it: \<^verbatim>\<open>lastindex\<close>
  and \<^verbatim>\<open>(start(i), end(i))\<close>, which is \<open>(-1, -1)\<close> for a group that took no part.
  Positions count code points.\<close>

record match_obj =
  lastindex :: "nat option"
  span :: "nat \<Rightarrow> int \<times> int"

text \<open>A Python string where code points matter: the list of its code points.\<close>

type_synonym ustr = "nat list"

record re_module =
  re_compile :: "string \<Rightarrow> py_exn + compiled"
  re_match :: "string \<Rightarrow> ustr \<Rightarrow> py_exn + match_obj option"

record fuzz_module =
  partial_ratio :: "string \<Rightarrow> string \<Rightarrow> int"
  ratio :: "string \<Rightarrow> string \<Rightarrow> int"

text \<open>A directory entry (\<^verbatim>\<open>os.DirEntry\<close>, or the \<^verbatim>\<open>Path\<close> made of a glob
  result): its \<^verbatim>\<open>name\<close>, \<^verbatim>\<open>str(entry)\<close>, and what \<^verbatim>\<open>is_dir()\<close> and
  \<^verbatim>\<open>is_file()\<close> return or raise.\<close>

record dirent =
  d_name :: string
  d_path :: string
  d_is_dir :: "py_exn + bool"
  d_is_file :: "py_exn + bool"

record pyenv =
  import_re :: "string \<Rightarrow> py_exn + re_module"
  import_fuzz :: "py_exn + fuzz_module"
  getpwall :: "py_exn + string list"
  sorted_other :: "pyval list \<Rightarrow> py_exn + pyval list"
  scandir :: "string \<Rightarrow> py_exn + dirent list"
  iglob :: "string \<Rightarrow> string list"
  glob_entry :: "string \<Rightarrow> string \<Rightarrow> dirent"
  same_path :: "string \<Rightarrow> string \<Rightarrow> bool"
  expandvars :: "string \<Rightarrow> string"
  fnmatch :: "string \<Rightarrow> string \<Rightarrow> bool"
  access_x :: "string \<Rightarrow> bool"

subsection \<open>Strings and paths\<close>

text \<open>\<^verbatim>\<open>s.startswith(p)\<close> and \<^verbatim>\<open>s.endswith(p)\<close>.\<close>

definition startswith :: "string \<Rightarrow> string \<Rightarrow> bool" where
  "startswith s p \<longleftrightarrow> take (length p) s = p"

definition endswith :: "string \<Rightarrow> string \<Rightarrow> bool" where
  "endswith s p \<longleftrightarrow> length p \<le> length s \<and> drop (length s - length p) s = p"

text \<open>\<^verbatim>\<open>s.split(sep)\<close> for a separator of one character.\<close>

fun split_on :: "char \<Rightarrow> string \<Rightarrow> string list" where
  "split_on c [] = [[]]"
| "split_on c (x # xs) =
     (if x = c then [] # split_on c xs
      else (case split_on c xs of
              [] \<Rightarrow> [[x]]
            | w # ws \<Rightarrow> (x # w) # ws))"

text \<open>\<^verbatim>\<open>posixpath.join(a, b)\<close>.\<close>

definition path_join :: "string \<Rightarrow> string \<Rightarrow> string" where
  "path_join a b =
     (if startswith b ''/'' then b
      else if a = [] \<or> endswith a ''/'' then a @ b
      else a @ ''/'' @ b)"

text \<open>\<^verbatim>\<open>posixpath.split(p)\<close>: the head loses its trailing slashes unless it is
  made of slashes only.\<close>

definition path_split :: "string \<Rightarrow> string \<times> string" where
  "path_split p =
     (let tail = rev (takeWhile (\<lambda>c. c \<noteq> CHR ''/'') (rev p));
          head = take (length p - length tail) p
      in (if head \<noteq> [] \<and> \<not> list_all (\<lambda>c. c = CHR ''/'') head
          then rev (dropWhile (\<lambda>c. c = CHR ''/'') (rev head))
          else head,
          tail))"

definition path_basename :: "string \<Rightarrow> string" where
  "path_basename p = snd (path_split p)"

definition path_dirname :: "string \<Rightarrow> string" where
  "path_dirname p = fst (path_split p)"

text \<open>
  \<^verbatim>\<open>
  def get_basename(self, f):
      if f.endswith(os.sep) or f.endswith('/'):
          return os.path.basename(f[:-1])
      return os.path.basename(f)
  \<close>
\<close>

definition get_basename :: "string \<Rightarrow> string" where
  "get_basename f =
     (if endswith f ''/'' \<or> endswith f ''/'' then path_basename (butlast f)
      else path_basename f)"

text \<open>Slices \<^verbatim>\<open>xs[i:]\<close>, \<^verbatim>\<open>xs[:i]\<close> and \<^verbatim>\<open>xs[a:b]\<close>; a negative
  index counts from the end, and an index out of range is clipped.\<close>

definition slice_index :: "'a list \<Rightarrow> int \<Rightarrow> nat" where
  "slice_index xs i = nat (if i < 0 then int (length xs) + i else i)"

definition slice_from :: "'a list \<Rightarrow> int \<Rightarrow> 'a list" where
  "slice_from xs i = drop (slice_index xs i) xs"

definition slice_to :: "'a list \<Rightarrow> int \<Rightarrow> 'a list" where
  "slice_to xs i = take (slice_index xs i) xs"

definition slice :: "'a list \<Rightarrow> int \<Rightarrow> int \<Rightarrow> 'a list" where
  "slice xs a b = drop (slice_index xs a) (take (slice_index xs b) xs)"

subsection \<open>Handlers\<close>

text \<open>
  A handler runs on a worker thread while other threads may set its event. What it sees
  of them is the answer of each call of \<^verbatim>\<open>event.is_set()\<close>: the k-th call returns
  \<open>is_set k\<close>. What it does to the shared state is a list of effects, in order:
  \<^verbatim>\<open>self.queue.put\<close>, \<^verbatim>\<open>self.events.remove(event)\<close> under the lock, and an exception
  that leaves the handler. The outcome also counts the calls of \<^verbatim>\<open>is_set\<close> made.
\<close>

type_synonym polls = "nat \<Rightarrow> bool"

datatype effect = Put entry | Remove_event | Raise py_exn

record outcome =
  polled :: nat
  effects :: "effect list"

text \<open>The tuples put on the queue: \<^verbatim>\<open>(ctx, res,)\<close> and
  \<^verbatim>\<open>(ctx, 'name: ' + str(e), 'reject',)\<close>.\<close>

definition resolve_entry :: "ctx \<Rightarrow> pyval \<Rightarrow> entry" where
  "resolve_entry c res = \<lparr> e_ctx = c, e_res = res, e_command = None \<rparr>"

definition reject_entry :: "ctx \<Rightarrow> string \<Rightarrow> py_exn \<Rightarrow> entry" where
  "reject_entry c prefix e =
     \<lparr> e_ctx = c, e_res = PStr (prefix @ exn_str e), e_command = Some ''reject'' \<rparr>"

definition strs :: "string list \<Rightarrow> pyval" where
  "strs xs = PList (map PStr xs)"

text \<open>
  \<^verbatim>\<open>
  def sleep_handler(self, event, ctx, t, x):
      if event.is_set():
          return
      time.sleep(t)
      self.queue.put((ctx, x,))
  \<close>
  \<^verbatim>\<open>time.sleep\<close> raises \<^verbatim>\<open>ValueError\<close> for a negative length; nothing catches it.
\<close>

definition sleep_handler :: "polls \<Rightarrow> ctx \<Rightarrow> int \<Rightarrow> pyval \<Rightarrow> outcome" where
  "sleep_handler is_set c t x =
     (if is_set 0 then \<lparr> polled = 1, effects = [] \<rparr>
      else if t < 0
      then \<lparr> polled = 1, effects = [Raise (PyExn ValueError ''sleep length must be non-negative'')] \<rparr>
      else \<lparr> polled = 1, effects = [Put (resolve_entry c x)] \<rparr>)"

text \<open>How a loop of a handler ends: the event was seen set (\<open>Stop\<close>), the loop
  reached the limit and the handler puts and returns (\<open>Full\<close>), the loop ran to its end
  (\<open>Go\<close>), or an exception left it (\<open>Fail\<close>). Each carries the number of polls so far.\<close>

datatype 'a scan = Stop nat | Full nat 'a | Go nat 'a | Fail nat py_exn

text \<open>The loop \<^verbatim>\<open>for match in pattern.finditer(line)\<close> of the search handler, over
  the matched texts.\<close>

fun search_matches ::
  "polls \<Rightarrow> int \<Rightarrow> string list \<Rightarrow> nat \<Rightarrow> string set \<times> string list
     \<Rightarrow> (string set \<times> string list) scan" where
  "search_matches is_set mx [] k acc = Go k acc"
| "search_matches is_set mx (candidate # ms) k acc =
     (if is_set k then Stop (Suc k)
      else if candidate \<notin> fst acc
      then
        (let seen = insert candidate (fst acc);
             candidates = snd acc @ [candidate]
         in if mx > 0 \<and> int (length candidates) \<ge> mx
            then Full (Suc k) (seen, candidates)
            else search_matches is_set mx ms (Suc k) (seen, candidates))
      else search_matches is_set mx ms (Suc k) acc)"

text \<open>The loop \<^verbatim>\<open>for line in buf\<close>.\<close>

fun search_lines ::
  "polls \<Rightarrow> int \<Rightarrow> compiled \<Rightarrow> string list \<Rightarrow> nat \<Rightarrow> string set \<times> string list
     \<Rightarrow> (string set \<times> string list) scan" where
  "search_lines is_set mx pattern [] k acc = Go k acc"
| "search_lines is_set mx pattern (line # buf) k acc =
     (if is_set k then Stop (Suc k)
      else (case search_matches is_set mx (finditer pattern line) (Suc k) acc of
              Go k' acc' \<Rightarrow> search_lines is_set mx pattern buf k' acc'
            | Stop k' \<Rightarrow> Stop k'
            | Full k' acc' \<Rightarrow> Full k' acc'
            | Fail k' e \<Rightarrow> Fail k' e))"

text \<open>
  \<^verbatim>\<open>
  def search_handler(self, event, ctx, opts, x, buf):
      if event.is_set():
          return
      try:
          module_name = opts['engine'] if 'engine' in opts else 're'
          max_candidates = opts['max_candidates'] if 'max_candidates' in opts else 300
          seen = set()
          candidates = []
          re = importlib.import_module(module_name)
          pattern = re.compile(x)
          for line in buf:
              if event.is_set():
                  return
              for match in pattern.finditer(line):
                  if event.is_set():
                      return
                  candidate = match.group()
                  if not candidate in seen:
                      seen.add(candidate)
                      candidates.append(candidate)
                      if max_candidates > 0 and len(candidates) >= max_candidates:
                          self.queue.put((ctx, candidates,))
                          return
          self.queue.put((ctx, candidates,))
      except Exception as e:
          self.queue.put((ctx, 'python_search: ' + str(e), 'reject',))
      finally:
          with self.lock:
              self.events.remove(event)
  \<close>
  The first return is outside the \<^verbatim>\<open>try\<close>; every other way out runs the
  \<^verbatim>\<open>finally\<close> clause.
\<close>

definition search_handler ::
  "pyenv \<Rightarrow> polls \<Rightarrow> ctx \<Rightarrow> search_opts \<Rightarrow> string \<Rightarrow> string list \<Rightarrow> outcome" where
  "search_handler env is_set c opts x buf =
     (if is_set 0 then \<lparr> polled = 1, effects = [] \<rparr>
      else
        let module_name = (case engine opts of Some m \<Rightarrow> m | None \<Rightarrow> ''re'');
            mx = (case max_candidates opts of Some m \<Rightarrow> m | None \<Rightarrow> 300)
        in case import_re env module_name of
             Inl e \<Rightarrow>
               \<lparr> polled = 1,
                 effects = [Put (reject_entry c ''python_search: '' e), Remove_event] \<rparr>
           | Inr re \<Rightarrow>
               (case re_compile re x of
                  Inl e \<Rightarrow>
                    \<lparr> polled = 1,
                      effects = [Put (reject_entry c ''python_search: '' e), Remove_event] \<rparr>
                | Inr pattern \<Rightarrow>
                    (case search_lines is_set mx pattern buf 1 ({}, []) of
                       Stop k \<Rightarrow> \<lparr> polled = k, effects = [Remove_event] \<rparr>
                     | Full k acc \<Rightarrow>
                         \<lparr> polled = k,
                           effects = [Put (resolve_entry c (strs (snd acc))), Remove_event] \<rparr>
                     | Go k acc \<Rightarrow>
                         \<lparr> polled = k,
                           effects = [Put (resolve_entry c (strs (snd acc))), Remove_event] \<rparr>
                     | Fail k e \<Rightarrow>
                         \<lparr> polled = k,
                           effects = [Put (reject_entry c ''python_search: '' e), Remove_event] \<rparr>)))"

text \<open>Lists are not hashable: \<^verbatim>\<open>x in seen\<close> raises \<^verbatim>\<open>TypeError\<close> for one.\<close>

fun hashable :: "pyval \<Rightarrow> bool" where
  "hashable (PList xs) = False"
| "hashable x = True"

text \<open>The comprehension
  \<^verbatim>\<open>[x for x in candidates if not (x in seen or seen.add(x))]\<close>.\<close>

fun uniq_loop :: "pyval list \<Rightarrow> pyval set \<Rightarrow> py_exn + pyval list" where
  "uniq_loop [] seen = Inr []"
| "uniq_loop (x # xs) seen =
     (if \<not> hashable x then Inl (PyExn TypeError (''unhashable type: '' @ quoted ''list''))
      else if x \<in> seen then uniq_loop xs seen
      else (case uniq_loop xs (insert x seen) of
              Inl e \<Rightarrow> Inl e
            | Inr res \<Rightarrow> Inr (x # res)))"

text \<open>
  \<^verbatim>\<open>
  def uniq_handler(self, event, ctx, candidates):
      if event.is_set():
          return
      seen = set()
      try:
          res = [x for x in candidates if not (x in seen or seen.add(x))]
          self.queue.put((ctx, res,))
      except Exception as e:
          self.queue.put((ctx, 'python_uniq: ' + str(e), 'reject',))
  \<close>
\<close>

definition uniq_handler :: "polls \<Rightarrow> ctx \<Rightarrow> pyval list \<Rightarrow> outcome" where
  "uniq_handler is_set c candidates =
     (if is_set 0 then \<lparr> polled = 1, effects = [] \<rparr>
      else (case uniq_loop candidates {} of
              Inr res \<Rightarrow> \<lparr> polled = 1, effects = [Put (resolve_entry c (PList res))] \<rparr>
            | Inl e \<Rightarrow> \<lparr> polled = 1, effects = [Put (reject_entry c ''python_uniq: '' e)] \<rparr>))"

fun is_str :: "pyval \<Rightarrow> bool" where
  "is_str (PStr s) = True"
| "is_str x = False"

fun is_int :: "pyval \<Rightarrow> bool" where
  "is_int (PInt i) = True"
| "is_int x = False"

fun the_str :: "pyval \<Rightarrow> string" where
  "the_str (PStr s) = s"
| "the_str x = []"

fun the_int :: "pyval \<Rightarrow> int" where
  "the_int (PInt i) = i"
| "the_int x = 0"

text \<open>\<^verbatim>\<open>sorted(candidates)\<close>: strings in the order of their code points, integers
  in theirs; what it does with any other list (which comparisons it makes, and whether
  one of them raises \<^verbatim>\<open>TypeError\<close>) is the interpreter's.\<close>

definition py_sorted :: "pyenv \<Rightarrow> pyval list \<Rightarrow> py_exn + pyval list" where
  "py_sorted env xs =
     (if list_all is_str xs then Inr (map PStr (sort (map the_str xs)))
      else if list_all is_int xs then Inr (map PInt (sort (map the_int xs)))
      else sorted_other env xs)"

text \<open>
  \<^verbatim>\<open>
  def sort_handler(self, event, ctx, candidates):
      if event.is_set():
          return
      try:
          res = sorted(candidates)
          self.queue.put((ctx, res,))
      except Exception as e:
          self.queue.put((ctx, 'python_sort: ' + str(e), 'reject',))
  \<close>
\<close>

definition sort_handler :: "pyenv \<Rightarrow> polls \<Rightarrow> ctx \<Rightarrow> pyval list \<Rightarrow> outcome" where
  "sort_handler env is_set c candidates =
     (if is_set 0 then \<lparr> polled = 1, effects = [] \<rparr>
      else (case py_sorted env candidates of
              Inr res \<Rightarrow> \<lparr> polled = 1, effects = [Put (resolve_entry c (PList res))] \<rparr>
            | Inl e \<Rightarrow> \<lparr> polled = 1, effects = [Put (reject_entry c ''python_sort: '' e)] \<rparr>))"

text \<open>
  \<^verbatim>\<open>
  def get_users_handler(self, event, ctx, expand_arg, expand_type):
      if event.is_set():
          return
      try:
          res = []
          for user in pwd.getpwall():
              if user.pw_name.startswith(expand_arg):
                  res.append(user.pw_name)
          res = sorted(res)
          self.queue.put((ctx, res,))
      except Exception as e:
          self.queue.put((ctx, 'python_get_users: ' + str(e), 'reject',))
  \<close>
\<close>

definition get_users_handler :: "pyenv \<Rightarrow> polls \<Rightarrow> ctx \<Rightarrow> string \<Rightarrow> string \<Rightarrow> outcome" where
  "get_users_handler env is_set c expand_arg expand_type =
     (if is_set 0 then \<lparr> polled = 1, effects = [] \<rparr>
      else (case getpwall env of
              Inr users \<Rightarrow>
                \<lparr> polled = 1,
                  effects =
                    [Put (resolve_entry c
                       (strs (sort (filter (\<lambda>pw_name. startswith pw_name expand_arg) users))))] \<rparr>
            | Inl e \<Rightarrow>
                \<lparr> polled = 1, effects = [Put (reject_entry c ''python_get_users: '' e)] \<rparr>))"

text \<open>
  \<^verbatim>\<open>
  def filter_handler(self, event, ctx, pattern, candidates, engine, has_file_args):
      if event.is_set():
          return
      try:
          re = importlib.import_module(engine)
          pattern = re.compile(pattern)
          res = filter(lambda x: pattern.search(x if not has_file_args else self.get_basename(x)), candidates)
          self.queue.put((ctx, list(res),))
      except Exception as e:
          self.queue.put((ctx, 'python_filter: ' + str(e), 'reject',))
  \<close>
\<close>

definition filter_handler ::
  "pyenv \<Rightarrow> polls \<Rightarrow> ctx \<Rightarrow> string \<Rightarrow> string list \<Rightarrow> string \<Rightarrow> bool \<Rightarrow> outcome" where
  "filter_handler env is_set c pattern candidates eng has_file_args =
     (if is_set 0 then \<lparr> polled = 1, effects = [] \<rparr>
      else (case import_re env eng of
              Inl e \<Rightarrow> \<lparr> polled = 1, effects = [Put (reject_entry c ''python_filter: '' e)] \<rparr>
            | Inr re \<Rightarrow>
                (case re_compile re pattern of
                   Inl e \<Rightarrow>
                     \<lparr> polled = 1, effects = [Put (reject_entry c ''python_filter: '' e)] \<rparr>
                 | Inr compiled_pattern \<Rightarrow>
                     \<lparr> polled = 1,
                       effects =
                         [Put (resolve_entry c
                            (strs (filter
                               (\<lambda>x. search_in compiled_pattern
                                  (if \<not> has_file_args then x else get_basename x))
                               candidates)))] \<rparr>)))"

text \<open>
  \<^verbatim>\<open>
  def fuzzywuzzy_handler(self, event, ctx, candidates, query, partial=True):
      if event.is_set():
          return
      try:
          fuzzy = importlib.import_module('fuzzywuzzy.fuzz')
          if partial:
              res = sorted(candidates, key=lambda x: -fuzzy.partial_ratio(x, query))
          else:
              res = sorted(candidates, key=lambda x: -fuzzy.ratio(x, query))
          self.queue.put((ctx, list(res),))
      except Exception as e:
          self.queue.put((ctx, 'python_filter: ' + str(e), 'reject',))
  \<close>
  \<^verbatim>\<open>sorted\<close> with a key is stable, as \<open>sort_key\<close> is.
\<close>

definition fuzzywuzzy_handler ::
  "pyenv \<Rightarrow> polls \<Rightarrow> ctx \<Rightarrow> string list \<Rightarrow> string \<Rightarrow> bool \<Rightarrow> outcome" where
  "fuzzywuzzy_handler env is_set c candidates query partial =
     (if is_set 0 then \<lparr> polled = 1, effects = [] \<rparr>
      else (case import_fuzz env of
              Inl e \<Rightarrow> \<lparr> polled = 1, effects = [Put (reject_entry c ''python_filter: '' e)] \<rparr>
            | Inr fuzzy \<Rightarrow>
                \<lparr> polled = 1,
                  effects =
                    [Put (resolve_entry c
                       (strs (if partial
                              then sort_key (\<lambda>x. - partial_ratio fuzzy x query) candidates
                              else sort_key (\<lambda>x. - ratio fuzzy x query) candidates)))] \<rparr>))"

text \<open>\<^verbatim>\<open>except OSError\<close> catches \<^verbatim>\<open>OSError\<close> and its subclasses.\<close>

definition is_oserror :: "py_exn \<Rightarrow> bool" where
  "is_oserror e \<longleftrightarrow> exn_kind_of e = OSError \<or> exn_kind_of e = FileNotFoundError"

text \<open>
  The body of the inner \<^verbatim>\<open>try\<close> of the file completion handler, for one entry,
  after the poll: \<open>Inr None\<close> is \<^verbatim>\<open>continue\<close>, \<open>Inr (Some f)\<close> is
  \<^verbatim>\<open>res.append(f)\<close>, \<open>Inl e\<close> an exception raised by \<^verbatim>\<open>is_dir()\<close> or
  \<^verbatim>\<open>is_file()\<close>.
  \<^verbatim>\<open>
  if entry.name.startswith('.') and not show_hidden:
      continue
  if expand_type == 'dir' and not entry.is_dir():
      continue
  ignore = False
  for wildignore in wildignore_list:
      if fnmatch.fnmatch(entry.name, wildignore):
          ignore = True
          break
  if ignore:
      continue
  if not has_wildcard and pattern and not fnmatch.fnmatch(entry.name, pattern):
      continue
  if expand_type == 'shellcmd' and (
          not entry.is_file() or not os.access(os.path.join(directory, entry.name), os.X_OK)):
      continue
  if has_wildcard and Path(entry) == Path(path_prefix):
      continue
  if entry.is_dir():
      res.append((str(entry) if has_wildcard else entry.name) + os.sep)
  else:
      res.append(str(entry) if has_wildcard else entry.name)
  \<close>
\<close>

definition entry_tail ::
  "pyenv \<Rightarrow> bool \<Rightarrow> string \<Rightarrow> dirent \<Rightarrow> py_exn + string option" where
  "entry_tail env has_wildcard path_prefix entry =
     (if has_wildcard \<and> same_path env (d_path entry) path_prefix then Inr None
      else (case d_is_dir entry of
              Inl e \<Rightarrow> Inl e
            | Inr isd \<Rightarrow>
                (if isd
                 then Inr (Some ((if has_wildcard then d_path entry else d_name entry) @ ''/''))
                 else Inr (Some (if has_wildcard then d_path entry else d_name entry)))))"

definition entry_step ::
  "pyenv \<Rightarrow> string \<Rightarrow> string \<Rightarrow> string list \<Rightarrow> bool \<Rightarrow> string \<Rightarrow> bool \<Rightarrow> string
     \<Rightarrow> dirent \<Rightarrow> py_exn + string option" where
  "entry_step env directory expand_type wildignore_list has_wildcard pattern show_hidden
       path_prefix entry =
     (if startswith (d_name entry) ''.'' \<and> \<not> show_hidden then Inr None
      else
        (case (if expand_type = ''dir'' then d_is_dir entry else Inr True) of
           Inl e \<Rightarrow> Inl e
         | Inr isd \<Rightarrow>
             (if expand_type = ''dir'' \<and> \<not> isd then Inr None
              else if list_ex (\<lambda>wildignore. fnmatch env (d_name entry) wildignore) wildignore_list
              then Inr None
              else if \<not> has_wildcard \<and> pattern \<noteq> [] \<and> \<not> fnmatch env (d_name entry) pattern
              then Inr None
              else if expand_type = ''shellcmd''
              then
                (case d_is_file entry of
                   Inl e \<Rightarrow> Inl e
                 | Inr isf \<Rightarrow>
                     (if \<not> isf \<or> \<not> access_x env (path_join directory (d_name entry))
                      then Inr None
                      else entry_tail env has_wildcard path_prefix entry))
              else entry_tail env has_wildcard path_prefix entry)))"

text \<open>The loop \<^verbatim>\<open>for entry in it\<close>: a poll, then the body; \<^verbatim>\<open>except OSError: pass\<close>
  drops the entry, any other exception leaves the loop.\<close>

fun scan_entries ::
  "pyenv \<Rightarrow> polls \<Rightarrow> string \<Rightarrow> string \<Rightarrow> string list \<Rightarrow> bool \<Rightarrow> string \<Rightarrow> bool \<Rightarrow> string
     \<Rightarrow> dirent list \<Rightarrow> nat \<Rightarrow> string list \<Rightarrow> string list scan" where
  "scan_entries env is_set directory expand_type wildignore_list has_wildcard pattern
       show_hidden path_prefix [] k res = Go k res"
| "scan_entries env is_set directory expand_type wildignore_list has_wildcard pattern
       show_hidden path_prefix (entry # it) k res =
     (if is_set k then Stop (Suc k)
      else
        (case entry_step env directory expand_type wildignore_list has_wildcard pattern
                show_hidden path_prefix entry of
           Inr None \<Rightarrow>
             scan_entries env is_set directory expand_type wildignore_list has_wildcard pattern
               show_hidden path_prefix it (Suc k) res
         | Inr (Some f) \<Rightarrow>
             scan_entries env is_set directory expand_type wildignore_list has_wildcard pattern
               show_hidden path_prefix it (Suc k) (res @ [f])
         | Inl e \<Rightarrow>
             (if is_oserror e
              then scan_entries env is_set directory expand_type wildignore_list has_wildcard
                     pattern show_hidden path_prefix it (Suc k) res
              else Fail (Suc k) e)))"

text \<open>
  The loop \<^verbatim>\<open>for directory in directories\<close>:
  \<^verbatim>\<open>
  if event.is_set():
      return
  if not directory:
      continue
  if has_wildcard:
      tail = os.path.basename(expand_arg)
      show_hidden = tail.startswith('.')
      pattern = ''
      wildcard = os.path.join(directory, expand_arg)
      wildcard = os.path.expandvars(wildcard)
      it = glob.iglob(wildcard, recursive=True)
  else:
      path = os.path.join(directory, expand_arg)
      (head, tail) = os.path.split(path)
      show_hidden = tail.startswith('.')
      pattern = tail + '*'
      try:
          it = os.scandir(head)
      except FileNotFoundError:
          continue
  for entry in it: ...
  \<close>
  With a wildcard each glob result becomes a \<^verbatim>\<open>Path\<close>, made relative to the
  directory where it can be (\<open>glob_entry\<close>).
\<close>

fun scan_dirs ::
  "pyenv \<Rightarrow> polls \<Rightarrow> string \<Rightarrow> string \<Rightarrow> bool \<Rightarrow> string \<Rightarrow> string list
     \<Rightarrow> string list \<Rightarrow> nat \<Rightarrow> string list \<Rightarrow> string list scan" where
  "scan_dirs env is_set expand_arg expand_type has_wildcard path_prefix wildignore_list
       [] k res = Go k res"
| "scan_dirs env is_set expand_arg expand_type has_wildcard path_prefix wildignore_list
       (directory # directories) k res =
     (if is_set k then Stop (Suc k)
      else if directory = []
      then scan_dirs env is_set expand_arg expand_type has_wildcard path_prefix wildignore_list
             directories (Suc k) res
      else if has_wildcard
      then
        (let tail = path_basename expand_arg;
             show_hidden = startswith tail ''.'';
             wildcard = expandvars env (path_join directory expand_arg);
             it = map (glob_entry env directory) (iglob env wildcard)
         in case scan_entries env is_set directory expand_type wildignore_list has_wildcard
                   [] show_hidden path_prefix it (Suc k) res of
              Go k' res' \<Rightarrow>
                scan_dirs env is_set expand_arg expand_type has_wildcard path_prefix
                  wildignore_list directories k' res'
            | Stop k' \<Rightarrow> Stop k'
            | Full k' res' \<Rightarrow> Full k' res'
            | Fail k' e \<Rightarrow> Fail k' e)
      else
        (let path = path_join directory expand_arg;
             head = fst (path_split path);
             tail = snd (path_split path);
             show_hidden = startswith tail ''.'';
             pattern = tail @ ''*''
         in case scandir env head of
              Inl e \<Rightarrow>
                (if exn_kind_of e = FileNotFoundError
                 then scan_dirs env is_set expand_arg expand_type has_wildcard path_prefix
                        wildignore_list directories (Suc k) res
                 else Fail (Suc k) e)
            | Inr it \<Rightarrow>
                (case scan_entries env is_set directory expand_type wildignore_list has_wildcard
                        pattern show_hidden path_prefix it (Suc k) res of
                   Go k' res' \<Rightarrow>
                     scan_dirs env is_set expand_arg expand_type has_wildcard path_prefix
                       wildignore_list directories k' res'
                 | Stop k' \<Rightarrow> Stop k'
                 | Full k' res' \<Rightarrow> Full k' res'
                 | Fail k' e \<Rightarrow> Fail k' e)))"

text \<open>
  After the loops:
  \<^verbatim>\<open>
  res = sorted(res)
  head = os.path.dirname(expand_arg)
  if not has_wildcard:
      res = list(map(lambda f: os.path.join(head, f) if head else f, res))
  if expand_arg == '.':
      res.insert(0, '../')
      res.insert(0, './')
  elif expand_arg == '..':
      res.insert(0, '../')
  \<close>
\<close>

definition finish_completion :: "string \<Rightarrow> bool \<Rightarrow> string list \<Rightarrow> string list" where
  "finish_completion expand_arg has_wildcard res0 =
     (let res1 = sort res0;
          head = path_dirname expand_arg;
          res2 = (if \<not> has_wildcard
                  then map (\<lambda>f. if head \<noteq> [] then path_join head f else f) res1
                  else res1)
      in if expand_arg = ''.'' then ''./'' # ''../'' # res2
         else if expand_arg = ''..'' then ''../'' # res2
         else res2)"

text \<open>\<^verbatim>\<open>get_file_completion_handler\<close>: the first poll, then, inside
  \<^verbatim>\<open>try\<close>, the split of the \<^verbatim>\<open>wildignore\<close> option, the loops and the put; any
  exception that leaves the loops is put as a rejection named
  \<^verbatim>\<open>python_get_file_completion\<close>. The loops of this handler have no early
  exit with a result, so they never end with \<open>Full\<close>.\<close>

definition get_file_completion_handler ::
  "pyenv \<Rightarrow> polls \<Rightarrow> ctx \<Rightarrow> string \<Rightarrow> string \<Rightarrow> string \<Rightarrow> bool \<Rightarrow> string \<Rightarrow> string list
     \<Rightarrow> string \<Rightarrow> outcome" where
  "get_file_completion_handler env is_set c working_directory expand_arg expand_type
       has_wildcard path_prefix directories wildignore_opt =
     (if is_set 0 then \<lparr> polled = 1, effects = [] \<rparr>
      else
        let wildignore_list = split_on CHR '','' wildignore_opt
        in case scan_dirs env is_set expand_arg expand_type has_wildcard path_prefix
                  wildignore_list directories 1 [] of
             Stop k \<Rightarrow> \<lparr> polled = k, effects = [] \<rparr>
           | Full k res \<Rightarrow> \<lparr> polled = k, effects = [] \<rparr>
           | Go k res \<Rightarrow>
               \<lparr> polled = k,
                 effects =
                   [Put (resolve_entry c (strs (finish_completion expand_arg has_wildcard res)))] \<rparr>
           | Fail k e \<Rightarrow>
               \<lparr> polled = k,
                 effects = [Put (reject_entry c ''python_get_file_completion: '' e)] \<rparr>)"

subsection \<open>Running a submitted closure\<close>

text \<open>\<^verbatim>\<open>functools.partial(fn, *([event] + args))\<close>, called by a worker.\<close>

fun run_handler :: "pyenv \<Rightarrow> polls \<Rightarrow> request \<Rightarrow> outcome" where
  "run_handler env is_set (Sleep_req c t x) = sleep_handler is_set c t x"
| "run_handler env is_set (Search_req c opts x buf) = search_handler env is_set c opts x buf"
| "run_handler env is_set (Uniq_req c candidates) = uniq_handler is_set c candidates"
| "run_handler env is_set (Sort_req c candidates) = sort_handler env is_set c candidates"
| "run_handler env is_set
     (File_req c wd expand_arg expand_type has_wildcard path_prefix directories wildignore) =
     get_file_completion_handler env is_set c wd expand_arg expand_type has_wildcard
       path_prefix directories wildignore"
| "run_handler env is_set (Users_req c expand_arg expand_type) =
     get_users_handler env is_set c expand_arg expand_type"
| "run_handler env is_set (Filter_req c pattern candidates eng has_file_args) =
     filter_handler env is_set c pattern candidates eng has_file_args"
| "run_handler env is_set (Fuzzy_req c candidates query partial) =
     fuzzywuzzy_handler env is_set c candidates query partial"


text \<open>The effects on the plugin's state. \<^verbatim>\<open>list.remove\<close> takes out the first
  occurrence and raises \<^verbatim>\<open>ValueError\<close> when there is none; an exception ends the
  handler.\<close>

fun apply_effects :: "wilder \<Rightarrow> token \<Rightarrow> effect list \<Rightarrow> wilder \<times> py_exn option" where
  "apply_effects s event [] = (s, None)"
| "apply_effects s event (Put e # fs) = apply_effects (s\<lparr>queue := queue s @ [e]\<rparr>) event fs"
| "apply_effects s event (Remove_event # fs) =
     (if event \<in> set (events s)
      then apply_effects (s\<lparr>events := remove1 event (events s)\<rparr>) event fs
      else (s, Some (PyExn ValueError ''list.remove(x): x not in list'')))"
| "apply_effects s event (Raise e # fs) = (s, Some e)"

text \<open>A worker runs one closure to its end; the event's flag is read from the state,
  which no other thread changes meanwhile.\<close>

definition execute :: "pyenv \<Rightarrow> wilder \<Rightarrow> token \<times> request \<Rightarrow> wilder \<times> py_exn option" where
  "execute env s task =
     apply_effects s (fst task)
       (effects (run_handler env (\<lambda>k. fst task \<in> cancelled s) (snd task)))"

subsection \<open>The functions the host calls\<close>

text \<open>What the plugin reads of the editor: the cursor's line (from 1), the lines of
  the current buffer, the options \<^verbatim>\<open>wildignore\<close> and \<^verbatim>\<open>path\<close>, and the
  environment variable \<^verbatim>\<open>PATH\<close>.\<close>

record nvim =
  cursor_row :: int
  current_buffer :: "string list"
  opt_wildignore :: string
  opt_path :: string
  env_PATH :: "string option"

definition sleep :: "wilder \<Rightarrow> ctx \<Rightarrow> int \<Rightarrow> pyval \<Rightarrow> wilder \<times> py_exn option" where
  "sleep s c t x = run_in_background s (Sleep_req c t x)"

text \<open>
  \<^verbatim>\<open>
  def search(self, args):
      if args[2] == "":
          self.handle(args[1], [])
          return
      line_num = self.nvim.current.window.cursor[0] - 1
      current_buf = self.nvim.current.buffer
      buf = current_buf[line_num:] + current_buf[:line_num]
      self.run_in_background(self.search_handler, args + [buf])
  \<close>
  The arguments are the context, the options and the pattern, so \<^verbatim>\<open>args[1]\<close> is
  the options. The result lists the host calls made before the function returns.
\<close>

definition search ::
  "wilder \<Rightarrow> nvim \<Rightarrow> ctx \<Rightarrow> search_opts \<Rightarrow> string
     \<Rightarrow> wilder \<times> host_call list \<times> py_exn option" where
  "search s nv c opts x =
     (if x = [] then (s, [handle (HOpts opts) (PList []) ''resolve''], None)
      else
        let line_num = cursor_row nv - 1;
            current_buf = current_buffer nv;
            buf = slice_from current_buf line_num @ slice_to current_buf line_num;
            r = run_in_background s (Search_req c opts x buf)
        in (fst r, [], snd r))"

definition uniq :: "wilder \<Rightarrow> ctx \<Rightarrow> pyval list \<Rightarrow> wilder \<times> py_exn option" where
  "uniq s c candidates = run_in_background s (Uniq_req c candidates)"

definition sort_entry :: "wilder \<Rightarrow> ctx \<Rightarrow> pyval list \<Rightarrow> wilder \<times> py_exn option" where
  "sort_entry s c candidates = run_in_background s (Sort_req c candidates)"

text \<open>
  \<^verbatim>\<open>
  def get_file_completion(self, args):
      wildignore = self.nvim.options.get('wildignore')
      if args[3] == 'file_in_path':
          path_opt = self.nvim.options.get('path') if args[3] == 'file_in_path' else ''
          directories = path_opt.split(',')
      elif args[3] == 'shellcmd':
          path = os.environ['PATH']
          directories = path.split(':')
      else:
          directories = [args[1]]
      self.run_in_background(self.get_file_completion_handler, args + [directories, wildignore])
  \<close>
\<close>

definition get_file_completion ::
  "wilder \<Rightarrow> nvim \<Rightarrow> ctx \<Rightarrow> string \<Rightarrow> string \<Rightarrow> string \<Rightarrow> bool \<Rightarrow> string
     \<Rightarrow> wilder \<times> py_exn option" where
  "get_file_completion s nv c working_directory expand_arg expand_type has_wildcard path_prefix =
     (let wildignore = opt_wildignore nv
      in if expand_type = ''file_in_path''
         then run_in_background s
                (File_req c working_directory expand_arg expand_type has_wildcard path_prefix
                   (split_on CHR '','' (opt_path nv)) wildignore)
         else if expand_type = ''shellcmd''
         then (case env_PATH nv of
                 None \<Rightarrow> (s, Some (PyExn KeyError (quoted ''PATH'')))
               | Some path \<Rightarrow>
                   run_in_background s
                     (File_req c working_directory expand_arg expand_type has_wildcard
                        path_prefix (split_on CHR '':'' path) wildignore))
         else run_in_background s
                (File_req c working_directory expand_arg expand_type has_wildcard path_prefix
                   [working_directory] wildignore))"

definition get_users :: "wilder \<Rightarrow> ctx \<Rightarrow> string \<Rightarrow> string \<Rightarrow> wilder \<times> py_exn option" where
  "get_users s c expand_arg expand_type = run_in_background s (Users_req c expand_arg expand_type)"

definition filter_entry ::
  "wilder \<Rightarrow> ctx \<Rightarrow> string \<Rightarrow> string list \<Rightarrow> string \<Rightarrow> bool \<Rightarrow> wilder \<times> py_exn option" where
  "filter_entry s c pattern candidates eng has_file_args =
     run_in_background s (Filter_req c pattern candidates eng has_file_args)"

definition fuzzywuzzy ::
  "wilder \<Rightarrow> ctx \<Rightarrow> string list \<Rightarrow> string \<Rightarrow> bool \<Rightarrow> wilder \<times> py_exn option" where
  "fuzzywuzzy s c candidates query partial =
     run_in_background s (Fuzzy_req c candidates query partial)"

subsection \<open>\<^verbatim>\<open>extract_captures\<close>\<close>

text \<open>The UTF-8 bytes of a code point; a surrogate has none
  (\<^verbatim>\<open>UnicodeEncodeError\<close>).\<close>

definition utf8_bytes :: "nat \<Rightarrow> nat list option" where
  "utf8_bytes c =
     (if c < 0x80 then Some [c]
      else if c < 0x800 then Some [0xC0 + c div 64, 0x80 + c mod 64]
      else if 0xD800 \<le> c \<and> c < 0xE000 then None
      else if c < 0x10000
      then Some [0xE0 + c div 4096, 0x80 + (c div 64) mod 64, 0x80 + c mod 64]
      else Some [0xF0 + c div 262144, 0x80 + (c div 4096) mod 64, 0x80 + (c div 64) mod 64,
                 0x80 + c mod 64])"

text \<open>\<^verbatim>\<open>s.encode('utf-8')\<close>.\<close>

fun encode_utf8 :: "ustr \<Rightarrow> py_exn + nat list" where
  "encode_utf8 [] = Inr []"
| "encode_utf8 (c # cs) =
     (case utf8_bytes c of
        None \<Rightarrow> Inl (PyExn UnicodeEncodeError ''surrogates not allowed'')
      | Some bs \<Rightarrow>
          (case encode_utf8 cs of
             Inl e \<Rightarrow> Inl e
           | Inr rest \<Rightarrow> Inr (bs @ rest)))"

text \<open>The loop \<^verbatim>\<open>for i in range(1, match.lastindex + 1)\<close>.\<close>

fun captures_loop :: "match_obj \<Rightarrow> ustr \<Rightarrow> nat list \<Rightarrow> int list list \<Rightarrow> py_exn + int list list" where
  "captures_loop m string [] captures = Inr captures"
| "captures_loop m string (i # is) captures =
     (let start = fst (span m i);
          end = snd (span m i)
      in if start = - 1 \<or> end = - 1 \<or> start = end then captures_loop m string is captures
         else
           (case encode_utf8 (slice_to string start) of
              Inl e \<Rightarrow> Inl e
            | Inr b1 \<Rightarrow>
                (case encode_utf8 (slice string start end) of
                   Inl e \<Rightarrow> Inl e
                 | Inr b2 \<Rightarrow>
                     (let byte_start = int (length b1);
                          byte_end = byte_start + int (length b2) - 1
                      in captures_loop m string is (captures @ [[byte_start, byte_end]])))))"

text \<open>
  \<^verbatim>\<open>
  def extract_captures(self, args):
      pattern = args[0]
      string = args[1]
      if len(args) >= 3:
          module_name = args[2]
      else:
          module_name = 're'
      re = importlib.import_module(module_name)
      match = re.match(pattern, string)
      if not match or not match.lastindex:
          return  []
      captures = []
      for i in range(1, match.lastindex + 1):
          start = match.start(i)
          end = match.end(i)
          if start == -1 or end == -1 or start == end:
              continue
          byte_start = len(string[: start].encode('utf-8'))
          byte_end = byte_start + len(string[start : end].encode('utf-8')) - 1
          captures.append([byte_start, byte_end])
      return captures
  \<close>
\<close>

definition extract_captures ::
  "pyenv \<Rightarrow> string \<Rightarrow> ustr \<Rightarrow> string option \<Rightarrow> py_exn + int list list" where
  "extract_captures env pattern string engine_name =
     (let module_name = (case engine_name of Some m \<Rightarrow> m | None \<Rightarrow> ''re'')
      in case import_re env module_name of
           Inl e \<Rightarrow> Inl e
         | Inr re \<Rightarrow>
             (case re_match re pattern string of
                Inl e \<Rightarrow> Inl e
              | Inr None \<Rightarrow> Inr []
              | Inr (Some m) \<Rightarrow>
                  (case lastindex m of
                     None \<Rightarrow> Inr []
                   | Some n \<Rightarrow>
                       (if n = 0 then Inr []
                        else captures_loop m string [1..<n + 1] []))))"

subsection \<open>An environment for the examples\<close>

text \<open>
  A small regular expression engine, registered as \<^verbatim>\<open>re\<close>. Its \<^verbatim>\<open>match\<close>
  takes the patterns made of letters, digits and capturing groups, and matches them as
  \<^verbatim>\<open>re.match\<close> does: at the beginning of the string, one character after the other;
  a group has the number of its opening parenthesis, a group that took no part has the
  span \<open>(-1, -1)\<close>, and \<^verbatim>\<open>lastindex\<close> is the group closed last. Its
  \<^verbatim>\<open>compile\<close> takes the pattern \<^verbatim>\<open>.+\<close>, whose only match in a line that is
  not empty is the line. Any other pattern it refuses.
\<close>

definition ascii :: "string \<Rightarrow> ustr" where
  "ascii s = map of_char s"

fun lookup_span :: "(nat \<times> int \<times> int) list \<Rightarrow> nat \<Rightarrow> int \<times> int" where
  "lookup_span [] i = (- 1, - 1)"
| "lookup_span ((j, sp) # spans) i = (if i = j then sp else lookup_span spans i)"

definition is_plain :: "char \<Rightarrow> bool" where
  "is_plain c \<longleftrightarrow>
     (CHR ''a'' \<le> c \<and> c \<le> CHR ''z'') \<or> (CHR ''A'' \<le> c \<and> c \<le> CHR ''Z'')
     \<or> (CHR ''0'' \<le> c \<and> c \<le> CHR ''9'')"

fun lit_pattern :: "string \<Rightarrow> nat \<Rightarrow> bool" where
  "lit_pattern [] depth = (depth = 0)"
| "lit_pattern (c # p) depth =
     (if c = CHR ''('' then lit_pattern p (Suc depth)
      else if c = CHR '')'' then (if depth = 0 then False else lit_pattern p (depth - 1))
      else if is_plain c then lit_pattern p depth
      else False)"

text \<open>One pass over the pattern: the position in the string, the number of groups
  opened, the open groups with their starts, the spans of the closed groups, and the
  group closed last.\<close>

fun lit_match ::
  "string \<Rightarrow> ustr \<Rightarrow> nat \<Rightarrow> nat \<Rightarrow> (nat \<times> nat) list \<Rightarrow> (nat \<times> int \<times> int) list \<Rightarrow> nat option
     \<Rightarrow> match_obj option" where
  "lit_match [] s pos n open_groups spans li =
     Some \<lparr> lastindex = li, span = lookup_span spans \<rparr>"
| "lit_match (c # p) s pos n open_groups spans li =
     (if c = CHR ''(''
      then lit_match p s pos (Suc n) ((Suc n, pos) # open_groups) spans li
      else if c = CHR '')''
      then (case open_groups of
              [] \<Rightarrow> None
            | g # rest \<Rightarrow>
                lit_match p s pos n rest ((fst g, (int (snd g), int pos)) # spans) (Some (fst g)))
      else (case s of
              [] \<Rightarrow> None
            | x # xs \<Rightarrow>
                (if of_char c = x then lit_match p xs (Suc pos) n open_groups spans li
                 else None)))"

definition ex_match :: "string \<Rightarrow> ustr \<Rightarrow> py_exn + match_obj option" where
  "ex_match p s =
     (if lit_pattern p 0 then Inr (lit_match p s 0 0 [] [] None)
      else Inl (PyExn ReError ''unsupported pattern''))"

definition ex_compile :: "string \<Rightarrow> py_exn + compiled" where
  "ex_compile p =
     (if p = ''.+''
      then Inr \<lparr> finditer = (\<lambda>line. if line = [] then [] else [line]),
                 search_in = (\<lambda>x. x \<noteq> []) \<rparr>
      else Inl (PyExn ReError ''unsupported pattern''))"

text \<open>\<^verbatim>\<open>fnmatch.fnmatch\<close> on patterns without brackets: \<^verbatim>\<open>*\<close> is any
  run of characters, \<^verbatim>\<open>?\<close> any one character.\<close>

fun glob_match :: "string \<Rightarrow> string \<Rightarrow> bool" where
  "glob_match [] s = (s = [])"
| "glob_match (p # ps) [] = (if p = CHR ''*'' then glob_match ps [] else False)"
| "glob_match (p # ps) (c # cs) =
     (if p = CHR ''*''
      then (if glob_match ps (c # cs) then True else glob_match (p # ps) cs)
      else if p = CHR ''?'' \<or> p = c then glob_match ps cs
      else False)"

text \<open>The directory \<^verbatim>\<open>/d\<close> holds the file \<^verbatim>\<open>a.txt\<close>, the file
  \<^verbatim>\<open>.hidden\<close> and the directory \<^verbatim>\<open>sub\<close>; there is no other directory.\<close>

definition ex_file :: "string \<Rightarrow> dirent" where
  "ex_file n = \<lparr> d_name = n, d_path = ''/d/'' @ n, d_is_dir = Inr False, d_is_file = Inr True \<rparr>"

definition ex_dir :: "string \<Rightarrow> dirent" where
  "ex_dir n = \<lparr> d_name = n, d_path = ''/d/'' @ n, d_is_dir = Inr True, d_is_file = Inr False \<rparr>"

definition ex_scandir :: "string \<Rightarrow> py_exn + dirent list" where
  "ex_scandir p =
     (if p = ''/d'' then Inr [ex_file ''a.txt'', ex_file ''.hidden'', ex_dir ''sub'']
      else Inl (PyExn FileNotFoundError (''[Errno 2] No such file or directory: '' @ quoted p)))"

text \<open>The library of the examples: \<^verbatim>\<open>fuzzywuzzy\<close> is not installed, the only
  engine is \<^verbatim>\<open>re\<close>, the users are three, and nothing is executable.\<close>

definition ex_env :: pyenv where
  "ex_env =
     \<lparr> import_re =
         (\<lambda>name. if name = ''re''
            then Inr \<lparr> re_compile = ex_compile, re_match = ex_match \<rparr>
            else Inl (PyExn ImportError (''No module named '' @ quoted name))),
       import_fuzz = Inl (PyExn ImportError (''No module named '' @ quoted ''fuzzywuzzy'')),
       getpwall = Inr [''root'', ''daemon'', ''rob''],
       sorted_other =
         (\<lambda>xs. Inl (PyExn TypeError
            (quoted ''<'' @ '' not supported between instances of '' @ quoted ''str''
               @ '' and '' @ quoted ''int''))),
       scandir = ex_scandir,
       iglob = (\<lambda>w. []),
       glob_entry = (\<lambda>directory p. ex_file p),
       same_path = (\<lambda>a b. a = b),
       expandvars = (\<lambda>p. p),
       fnmatch = (\<lambda>n p. glob_match p n),
       access_x = (\<lambda>p. False) \<rparr>"

definition ex_ctx :: "int \<Rightarrow> int \<Rightarrow> ctx" where
  "ex_ctx r st = \<lparr> ctx_run_id = r, ctx_step = st, ctx_rest = 0 \<rparr>"


definition never_set :: polls where
  "never_set k \<longleftrightarrow> False"

subsection \<open>Polls of a loop\<close>




text \<open>An editor with the cursor on the second of three lines.\<close>

definition ex_nvim :: nvim where
  "ex_nvim =
     \<lparr> cursor_row = 2, current_buffer = [''one'', ''two'', ''three''], opt_wildignore = [],
       opt_path = ''.,,'', env_PATH = Some ''/bin:/usr/bin'' \<rparr>"

subsection \<open>Byte offsets\<close>

text \<open>The number of bytes of a code point in UTF-8, and of a string.\<close>

definition utf8_width :: "nat \<Rightarrow> nat" where
  "utf8_width c = (if c < 0x80 then 1 else if c < 0x800 then 2 else if c < 0x10000 then 3 else 4)"

definition utf8_length :: "ustr \<Rightarrow> int" where
  "utf8_length s = int (sum_list (map utf8_width s))"

text \<open>A string without surrogates can be encoded.\<close>

definition encodable :: "ustr \<Rightarrow> bool" where
  "encodable s \<longleftrightarrow> list_all (\<lambda>c. \<not> (0xD800 \<le> c \<and> c < 0xE000)) s"

text \<open>Group \<open>i\<close> took part in the match and is not empty.\<close>

definition reported :: "match_obj \<Rightarrow> nat \<Rightarrow> bool" where
  "reported m i \<longleftrightarrow>
     fst (span m i) \<noteq> - 1 \<and> snd (span m i) \<noteq> - 1 \<and> fst (span m i) \<noteq> snd (span m i)"

text \<open>The span of group \<open>i\<close> in bytes, its last byte included: the bytes before the
  group's start, and the bytes of the group.\<close>

definition byte_span :: "match_obj \<Rightarrow> ustr \<Rightarrow> nat \<Rightarrow> int list" where
  "byte_span m string i =
     [utf8_length (slice_to string (fst (span m i))),
      utf8_length (slice_to string (fst (span m i)))
        + utf8_length (slice string (fst (span m i)) (snd (span m i))) - 1]"

text \<open>An engine whose every match has one group, at code points 2 to 3, as
  \<^verbatim>\<open>re.match('..(b)', s)\<close> has on a string of two code points followed by b.\<close>

definition ex_utf8_env :: pyenv where
  "ex_utf8_env =
     ex_env\<lparr>import_re :=
       (\<lambda>name. Inr \<lparr> re_compile = ex_compile,
                    re_match = (\<lambda>p s. Inr (Some \<lparr> lastindex = Some 1,
                       span = (\<lambda>i. if i = 1 then (2, 3) else (- 1, - 1)) \<rparr>)) \<rparr>)\<rparr>"

text \<open>Three handlers have put their results, for steps 1, 2 and 3 of run 1; the
  feeder thread has not run yet.\<close>

definition ex_backlog :: wilder where
  "ex_backlog =
     fst (apply_effects wilder_new 0
       [Put (ex_entry 1 1 (PList [PStr ''a''])), Put (ex_entry 1 2 (PList [PStr ''b''])),
        Put (ex_entry 1 3 (PList [PStr ''c'']))])"



section \<open>Properties\<close>

lemma cancel_events_eq: "cancel_events es fl = ([], set es \<union> fl)"
  by (induction es arbitrary: fl) auto

subsection \<open>The delivery consumer\<close>

lemma key_le_refl: "key_le a a"
  by (simp add: key_le_def)

lemma key_le_trans: "key_le a b \<Longrightarrow> key_le b c \<Longrightarrow> key_le a c"
  by (auto simp: key_le_def)

lemma newer_key_le: "newer x a \<Longrightarrow> key_le (ctx_key a) (ctx_key x)"
  by (auto simp: newer_def key_le_def ctx_key_def)

lemma not_newer_key_le: "\<not> newer x a \<Longrightarrow> key_le (ctx_key x) (ctx_key a)"
  by (auto simp: newer_def key_le_def ctx_key_def)

lemma newer_iff: "newer x a \<longleftrightarrow> \<not> key_le (ctx_key x) (ctx_key a)"
  by (auto simp: newer_def key_le_def ctx_key_def)

lemma drain_mem: "drain a q \<in> set (a # q)"
  by (induction q arbitrary: a) auto

lemma drain_ge_start: "key_le (ctx_key (e_ctx a)) (ctx_key (e_ctx (drain a q)))"
proof (induction q arbitrary: a)
  case Nil
  show ?case by (simp add: key_le_refl)
next
  case (Cons x q)
  show ?case
  proof (cases "newer (e_ctx x) (e_ctx a)")
    case True
    then have "key_le (ctx_key (e_ctx a)) (ctx_key (e_ctx x))" by (rule newer_key_le)
    with Cons [of x] True show ?thesis by (auto intro: key_le_trans)
  next
    case False
    with Cons [of a] show ?thesis by simp
  qed
qed

lemma drain_max: "e \<in> set (a # q) \<Longrightarrow> key_le (ctx_key (e_ctx e)) (ctx_key (e_ctx (drain a q)))"
proof (induction q arbitrary: a)
  case Nil
  then show ?case by (simp add: key_le_refl)
next
  case (Cons x q)
  show ?case
  proof (cases "newer (e_ctx x) (e_ctx a)")
    case True
    have ax: "key_le (ctx_key (e_ctx a)) (ctx_key (e_ctx x))" using True by (rule newer_key_le)
    from Cons.prems have "e = a \<or> e \<in> set (x # q)" by auto
    then show ?thesis
    proof
      assume "e = a"
      with ax drain_ge_start [of x q] True show ?thesis by (auto intro: key_le_trans)
    next
      assume "e \<in> set (x # q)"
      with Cons.IH [of x] True show ?thesis by simp
    qed
  next
    case False
    have xa: "key_le (ctx_key (e_ctx x)) (ctx_key (e_ctx a))" using False by (rule not_newer_key_le)
    from Cons.prems have "e = x \<or> e \<in> set (a # q)" by auto
    then show ?thesis
    proof
      assume "e = x"
      with xa drain_ge_start [of a q] False show ?thesis by (auto intro: key_le_trans)
    next
      assume "e \<in> set (a # q)"
      with Cons.IH [of a] False show ?thesis by simp
    qed
  qed
qed

text \<open>The entry delivered is the first of the greatest: the queue splits at it.\<close>

lemma drain_first_max:
  "\<exists>pre post. a # q = pre @ drain a q # post
     \<and> (\<forall>e\<in>set pre. \<not> key_le (ctx_key (e_ctx (drain a q))) (ctx_key (e_ctx e)))
     \<and> (\<forall>e\<in>set post. key_le (ctx_key (e_ctx e)) (ctx_key (e_ctx (drain a q))))"
proof (induction q arbitrary: a)
  case Nil
  have "[a] = [] @ drain a [] # []" by simp
  then show ?case by (metis empty_iff list.set(1))
next
  case (Cons x q)
  show ?case
  proof (cases "newer (e_ctx x) (e_ctx a)")
    case True
    from Cons [of x] obtain pre post where
      sp: "x # q = pre @ drain x q # post"
      and lt: "\<forall>e\<in>set pre. \<not> key_le (ctx_key (e_ctx (drain x q))) (ctx_key (e_ctx e))"
      and le: "\<forall>e\<in>set post. key_le (ctx_key (e_ctx e)) (ctx_key (e_ctx (drain x q)))"
      by blast
    have "\<not> key_le (ctx_key (e_ctx x)) (ctx_key (e_ctx a))" using True by (simp add: newer_iff)
    with drain_ge_start [of x q]
    have a_lt: "\<not> key_le (ctx_key (e_ctx (drain x q))) (ctx_key (e_ctx a))"
      by (blast intro: key_le_trans)
    have "a # x # q = (a # pre) @ drain x q # post" using sp by simp
    with lt le a_lt True show ?thesis
      by (metis drain.simps(2) set_ConsD)
  next
    case False
    from Cons [of a] obtain pre post where
      sp: "a # q = pre @ drain a q # post"
      and lt: "\<forall>e\<in>set pre. \<not> key_le (ctx_key (e_ctx (drain a q))) (ctx_key (e_ctx e))"
      and le: "\<forall>e\<in>set post. key_le (ctx_key (e_ctx e)) (ctx_key (e_ctx (drain a q)))"
      by blast
    have xa: "key_le (ctx_key (e_ctx x)) (ctx_key (e_ctx a))"
      using False by (rule not_newer_key_le)
    have dr: "drain a (x # q) = drain a q" using False by simp
    show ?thesis
    proof (cases pre)
      case Nil
      with sp have d: "drain a q = a" and q: "q = post" by auto
      have "a # x # q = [] @ a # (x # post)" using q by simp
      moreover have "\<forall>e\<in>set (x # post). key_le (ctx_key (e_ctx e)) (ctx_key (e_ctx a))"
        using le xa d by simp
      ultimately show ?thesis unfolding dr d
        by (metis empty_iff list.set(1))
    next
      case (Cons p pre')
      with sp have pa: "p = a" and q: "q = pre' @ drain a q # post" by auto
      have "\<not> key_le (ctx_key (e_ctx (drain a q))) (ctx_key (e_ctx a))"
        using lt Cons pa by simp
      with xa have x_lt: "\<not> key_le (ctx_key (e_ctx (drain a q))) (ctx_key (e_ctx x))"
        by (blast intro: key_le_trans)
      have "a # x # q = (a # x # pre') @ drain a q # post" using q by simp
      moreover have "\<forall>e\<in>set (a # x # pre'). \<not> key_le (ctx_key (e_ctx (drain a q))) (ctx_key (e_ctx e))"
        using lt Cons pa x_lt by simp
      ultimately show ?thesis unfolding dr using le by blast
    qed
  qed
qed

lemma ex_backlog_eq:
  "ex_backlog =
     wilder_new\<lparr>queue :=
       [ex_entry 1 1 (PList [PStr ''a'']), ex_entry 1 2 (PList [PStr ''b'']),
        ex_entry 1 3 (PList [PStr ''c''])]\<rparr>"
  by (simp add: ex_backlog_def wilder_new_def)

text \<open>
  Claim C2 (amended). In one drain cycle the consumer takes the first entry it finds in
  the queue's pipe as the best, replaces it by each entry drained after it whose
  \<open>(run_id, step)\<close> is strictly greater (\<open>drain\<close>), and calls the host exactly
  once, with the entry of the greatest \<open>(run_id, step)\<close> among those it drained;
  among equal greatest entries it is the first. The entries drained are the oldest of
  the queue: those in the pipe when the cycle starts and those the feeder thread writes
  while it runs; the entries still buffered stay queued, in order. When every entry of
  the queue is in the pipe at the start, the cycle drains the whole queue.
\<close>

theorem consumer_coalesces:
  assumes "take (in_pipe s + feeds) (queue s) = args # q"
  shows "\<exists>best pre post.
           consumer_cycle s feeds =
             Some (s\<lparr>queue := drop (in_pipe s + feeds) (queue s), in_pipe := 0\<rparr>, deliver best)
         \<and> best = drain args q
         \<and> args # q = pre @ best # post
         \<and> (\<forall>e\<in>set (args # q). key_le (ctx_key (e_ctx e)) (ctx_key (e_ctx best)))
         \<and> (\<forall>e\<in>set pre. \<not> key_le (ctx_key (e_ctx best)) (ctx_key (e_ctx e)))
         \<and> (length (queue s) \<le> in_pipe s \<longrightarrow>
               args # q = queue s \<and> drop (in_pipe s + feeds) (queue s) = [])"
proof -
  obtain pre post where sp: "args # q = pre @ drain args q # post"
    and lt: "\<forall>e\<in>set pre. \<not> key_le (ctx_key (e_ctx (drain args q))) (ctx_key (e_ctx e))"
    using drain_first_max [of args q] by blast
  have cyc: "consumer_cycle s feeds =
      Some (s\<lparr>queue := drop (in_pipe s + feeds) (queue s), in_pipe := 0\<rparr>,
            deliver (drain args q))"
    using assms by (simp add: consumer_cycle_def)
  have mx: "\<forall>e\<in>set (args # q). key_le (ctx_key (e_ctx e)) (ctx_key (e_ctx (drain args q)))"
    using drain_max [of _ args q] by blast
  have whole: "length (queue s) \<le> in_pipe s \<longrightarrow>
      args # q = queue s \<and> drop (in_pipe s + feeds) (queue s) = []"
    using assms by auto
  from cyc sp lt mx whole show ?thesis by blast
qed

theorem consumer_coalesces_witness:
  "feed (feed (feed ex_backlog)) = ex_backlog\<lparr>in_pipe := 3\<rparr>
   \<and> consumer_cycle (feed (feed (feed ex_backlog))) 0
     = Some (wilder_new,
         \<lparr> h_function = ''wilder#pipeline#resolve'',
           h_ctx = HCtx \<lparr> ctx_run_id = 1, ctx_step = 3, ctx_rest = 0 \<rparr>,
           h_res = PList [PStr ''c''] \<rparr>)"
proof -
  have fed: "feed (feed (feed ex_backlog)) = ex_backlog\<lparr>in_pipe := 3\<rparr>"
    by (simp add: feed_def ex_backlog_eq wilder_new_def)
  have seen: "take (in_pipe (ex_backlog\<lparr>in_pipe := 3\<rparr>) + 0) (queue (ex_backlog\<lparr>in_pipe := 3\<rparr>))
      = ex_entry 1 1 (PList [PStr ''a''])
        # [ex_entry 1 2 (PList [PStr ''b'']), ex_entry 1 3 (PList [PStr ''c''])]"
    by (simp add: ex_backlog_eq)
  from consumer_coalesces [OF seen] show ?thesis
    unfolding fed
    by (auto simp: ex_backlog_eq wilder_new_def ex_entry_def newer_def deliver_def handle_def)
qed

text \<open>The claim as stated fails: the three entries have all been put when the
  consumer wakes, but only the first has reached the pipe; the cycle delivers
  \<open>(1, 1)\<close>, and the next cycle makes a second delivery.\<close>

theorem consumer_coalesces_counterexample:
  "queue ex_backlog =
     [ex_entry 1 1 (PList [PStr ''a'']), ex_entry 1 2 (PList [PStr ''b'']),
      ex_entry 1 3 (PList [PStr ''c''])]
   \<and> consumer_cycle ex_backlog 1
     = Some (ex_backlog\<lparr>queue :=
               [ex_entry 1 2 (PList [PStr ''b'']), ex_entry 1 3 (PList [PStr ''c''])]\<rparr>,
         \<lparr> h_function = ''wilder#pipeline#resolve'',
           h_ctx = HCtx \<lparr> ctx_run_id = 1, ctx_step = 1, ctx_rest = 0 \<rparr>,
           h_res = PList [PStr ''a''] \<rparr>)
   \<and> consumer_cycle
       (ex_backlog\<lparr>queue :=
          [ex_entry 1 2 (PList [PStr ''b'']), ex_entry 1 3 (PList [PStr ''c''])]\<rparr>) 2
     = Some (wilder_new,
         \<lparr> h_function = ''wilder#pipeline#resolve'',
           h_ctx = HCtx \<lparr> ctx_run_id = 1, ctx_step = 3, ctx_rest = 0 \<rparr>,
           h_res = PList [PStr ''c''] \<rparr>)"
  by (simp add: consumer_cycle_def ex_backlog_eq wilder_new_def ex_entry_def newer_def
      deliver_def handle_def)

subsection \<open>Admission\<close>

lemma run_in_background_dropped:
  "ctx_run_id (req_ctx r) < run_id s \<Longrightarrow>
     run_in_background s r = (s\<lparr>next_event := Suc (next_event s)\<rparr>, None)"
  by (simp add: run_in_background_def)

lemma run_in_background_admitted:
  "\<not> ctx_run_id (req_ctx r) < run_id s \<Longrightarrow> executor s = Some p \<Longrightarrow>
     run_in_background s r =
       (s\<lparr>next_event := Suc (next_event s), run_id := ctx_run_id (req_ctx r),
           events := [next_event s], cancelled := set (events s) \<union> cancelled s,
           executor := Some (p\<lparr>tasks := tasks p @ [(next_event s, r)]\<rparr>)\<rparr>, None)"
  by (simp add: run_in_background_def cancel_events_eq Let_def)

lemma run_in_background_no_pool:
  "\<not> ctx_run_id (req_ctx r) < run_id s \<Longrightarrow> executor s = None \<Longrightarrow>
     fst (run_in_background s r) =
       s\<lparr>next_event := Suc (next_event s), run_id := ctx_run_id (req_ctx r),
           events := [next_event s], cancelled := set (events s) \<union> cancelled s\<rparr>"
  by (simp add: run_in_background_def cancel_events_eq Let_def)

lemma submit_all_Nil: "submit_all s [] = s"
  by (simp add: submit_all_def)

lemma submit_all_Cons: "submit_all s (r # rs) = submit_all (fst (run_in_background s r)) rs"
  by (simp add: submit_all_def)

lemma submitted_requests:
  "executor s = Some p \<Longrightarrow>
     map snd (submitted (submit_all s rs)) = map snd (tasks p) @ spec_admitted (run_id s) rs"
proof (induction rs arbitrary: s p)
  case Nil
  then show ?case by (simp add: submit_all_Nil submitted_def)
next
  case (Cons r rs)
  show ?case
  proof (cases "ctx_run_id (req_ctx r) < run_id s")
    case True
    have "executor (s\<lparr>next_event := Suc (next_event s)\<rparr>) = Some p"
      using Cons.prems by simp
    from Cons.IH [OF this] True show ?thesis
      by (simp add: submit_all_Cons run_in_background_dropped)
  next
    case False
    let ?s' = "fst (run_in_background s r)"
    have ex: "executor ?s' = Some (p\<lparr>tasks := tasks p @ [(next_event s, r)]\<rparr>)"
      and rid: "run_id ?s' = ctx_run_id (req_ctx r)"
      using False Cons.prems by (simp_all add: run_in_background_admitted)
    have "max (run_id s) (ctx_run_id (req_ctx r)) = ctx_run_id (req_ctx r)"
      using False by simp
    with Cons.IH [OF ex] False rid show ?thesis
      by (simp add: submit_all_Cons)
  qed
qed

lemma tracked_run_id:
  "run_id (submit_all s rs) = fold (\<lambda>r m. max m (ctx_run_id (req_ctx r))) rs (run_id s)"
proof (induction rs arbitrary: s)
  case Nil
  show ?case by (simp add: submit_all_Nil)
next
  case (Cons r rs)
  show ?case
  proof (cases "ctx_run_id (req_ctx r) < run_id s")
    case True
    then have "max (run_id s) (ctx_run_id (req_ctx r)) = run_id s" by simp
    with Cons [of "s\<lparr>next_event := Suc (next_event s)\<rparr>"] True show ?thesis
      by (simp add: submit_all_Cons run_in_background_dropped)
  next
    case False
    then have m: "max (run_id s) (ctx_run_id (req_ctx r)) = ctx_run_id (req_ctx r)" by simp
    have "run_id (fst (run_in_background s r)) = ctx_run_id (req_ctx r)"
      using False by (cases "executor s") (simp_all add: run_in_background_def cancel_events_eq Let_def)
    with Cons [of "fst (run_in_background s r)"] m show ?thesis
      by (simp add: submit_all_Cons)
  qed
qed

text \<open>
  Claim C1 (amended). A submission whose run id is below the tracked run id is dropped:
  nothing is registered in the pending list, nothing is submitted, and the state changes
  only in that the event constructed on the first line has been used up. Any other
  submission is admitted: it becomes the tracked run id, its event is the pending list,
  and its closure is the pool's newest. Over a sequence of submissions the tracked run id
  is the greatest seen (with the initial one), and the pool receives exactly the
  submissions whose run id is at least the greatest seen before them.
\<close>

theorem admission_monotone:
  assumes "executor s = Some p"
  shows "(ctx_run_id (req_ctx r) < run_id s \<longrightarrow>
            run_in_background s r = (s\<lparr>next_event := Suc (next_event s)\<rparr>, None))
       \<and> (\<not> ctx_run_id (req_ctx r) < run_id s \<longrightarrow>
            snd (run_in_background s r) = None
            \<and> run_id (fst (run_in_background s r)) = ctx_run_id (req_ctx r)
            \<and> events (fst (run_in_background s r)) = [next_event s]
            \<and> submitted (fst (run_in_background s r)) = tasks p @ [(next_event s, r)])
       \<and> run_id (submit_all s rs) = fold (\<lambda>r m. max m (ctx_run_id (req_ctx r))) rs (run_id s)
       \<and> map snd (submitted (submit_all s rs)) = map snd (tasks p) @ spec_admitted (run_id s) rs"
  using assms submitted_requests [OF assms, of rs] tracked_run_id [of s rs]
  by (simp add: run_in_background_dropped run_in_background_admitted submitted_def)

lemma ex_started_eq:
  "ex_started = wilder_new\<lparr>has_init := True,
      executor := Some \<lparr> max_workers = 2, tasks = [] \<rparr>, consumers := 1\<rparr>"
  by (simp add: ex_started_def init_def wilder_new_def)

theorem admission_monotone_witness:
  "map snd (submitted (submit_all ex_started [ex_req 3 1, ex_req 5 1, ex_req 2 1, ex_req 5 2]))
     = [ex_req 3 1, ex_req 5 1, ex_req 5 2]
   \<and> run_id (submit_all ex_started [ex_req 3 1, ex_req 5 1, ex_req 2 1, ex_req 5 2]) = 5"
  using admission_monotone [of ex_started "\<lparr> max_workers = 2, tasks = [] \<rparr>" "ex_req 2 1"
      "[ex_req 3 1, ex_req 5 1, ex_req 2 1, ex_req 5 2]"]
  by (simp add: ex_started_eq wilder_new_def ex_req_def)

text \<open>The claim as stated fails where it says that no token is created for a dropped
  submission: after run ids 3 and 5, the submission with run id 2 is dropped, and its
  event has been constructed all the same.\<close>

theorem admission_counterexample:
  "ctx_run_id (req_ctx (ex_req 2 1)) < run_id (submit_all ex_started [ex_req 3 1, ex_req 5 1])
   \<and> events (fst (run_in_background (submit_all ex_started [ex_req 3 1, ex_req 5 1]) (ex_req 2 1)))
       = events (submit_all ex_started [ex_req 3 1, ex_req 5 1])
   \<and> next_event (submit_all ex_started [ex_req 3 1, ex_req 5 1]) = 2
   \<and> next_event (fst (run_in_background (submit_all ex_started [ex_req 3 1, ex_req 5 1]) (ex_req 2 1)))
       = 3"
  by (simp add: submit_all_def run_in_background_def cancel_events_eq Let_def ex_started_eq
      wilder_new_def ex_req_def)

subsection \<open>Cancellation at admission\<close>

lemma tokens_fresh_new: "tokens_fresh wilder_new"
  by (simp add: tokens_fresh_def wilder_new_def)

lemma tokens_fresh_init: "tokens_fresh s \<Longrightarrow> tokens_fresh (fst (init s opts))"
  by (simp add: tokens_fresh_def init_def Let_def)

lemma admitted_state:
  "\<not> ctx_run_id (req_ctx r) < run_id s \<Longrightarrow>
     events (fst (run_in_background s r)) = [next_event s]
     \<and> cancelled (fst (run_in_background s r)) = set (events s) \<union> cancelled s
     \<and> next_event (fst (run_in_background s r)) = Suc (next_event s)"
  by (cases "executor s") (simp_all add: run_in_background_def cancel_events_eq Let_def)

lemma tokens_fresh_run_in_background:
  assumes "tokens_fresh s"
  shows "tokens_fresh (fst (run_in_background s r))"
proof (cases "ctx_run_id (req_ctx r) < run_id s")
  case True
  with assms show ?thesis
    by (auto simp: run_in_background_dropped tokens_fresh_def less_Suc_eq)
next
  case False
  from admitted_state [OF False] assms show ?thesis
    by (auto simp: tokens_fresh_def less_Suc_eq)
qed

lemma live_tokens_run_in_background:
  assumes "tokens_fresh s" and "length (live_tokens s) \<le> 1"
  shows "length (live_tokens (fst (run_in_background s r))) \<le> 1"
proof (cases "ctx_run_id (req_ctx r) < run_id s")
  case True
  with assms(2) show ?thesis
    by (simp add: run_in_background_dropped live_tokens_def)
next
  case False
  from admitted_state [OF False] show ?thesis
    by (simp add: live_tokens_def)
qed

lemma live_tokens_submit_all:
  "tokens_fresh s \<Longrightarrow> length (live_tokens s) \<le> 1 \<Longrightarrow>
     tokens_fresh (submit_all s rs) \<and> length (live_tokens (submit_all s rs)) \<le> 1"
proof (induction rs arbitrary: s)
  case Nil
  then show ?case by (simp add: submit_all_Nil)
next
  case (Cons r rs)
  from Cons.IH [OF tokens_fresh_run_in_background [OF Cons.prems(1)]
      live_tokens_run_in_background [OF Cons.prems]]
  show ?case by (simp add: submit_all_Cons)
qed

text \<open>The handlers and the consumer keep both facts: they add to the queue, take an
  event out of the pending list, or empty the queue.\<close>

lemma live_tokens_remove1:
  "length (live_tokens (s\<lparr>events := remove1 event (events s)\<rparr>)) \<le> length (live_tokens s)"
proof -
  have "length (filter P (remove1 x xs)) \<le> length (filter P xs)" for P :: "nat \<Rightarrow> bool" and x xs
    by (induction xs) auto
  then show ?thesis by (simp add: live_tokens_def)
qed

lemma apply_effects_invariant:
  "tokens_fresh s \<Longrightarrow> length (live_tokens s) \<le> 1 \<Longrightarrow>
     tokens_fresh (fst (apply_effects s event fs))
     \<and> length (live_tokens (fst (apply_effects s event fs))) \<le> 1"
proof (induction fs arbitrary: s)
  case Nil
  then show ?case by simp
next
  case (Cons f fs)
  show ?case
  proof (cases f)
    case (Put e)
    have "tokens_fresh (s\<lparr>queue := queue s @ [e]\<rparr>)"
      and "length (live_tokens (s\<lparr>queue := queue s @ [e]\<rparr>)) \<le> 1"
      using Cons.prems by (simp_all add: tokens_fresh_def live_tokens_def)
    from Cons.IH [OF this] Put show ?thesis by simp
  next
    case Remove_event
    show ?thesis
    proof (cases "event \<in> set (events s)")
      case True
      have "tokens_fresh (s\<lparr>events := remove1 event (events s)\<rparr>)"
        using Cons.prems(1) by (auto simp: tokens_fresh_def dest: notin_set_remove1)
      moreover have "length (live_tokens (s\<lparr>events := remove1 event (events s)\<rparr>)) \<le> 1"
        using live_tokens_remove1 [where s = s and event = event] Cons.prems(2) by simp
      ultimately show ?thesis using Cons.IH Remove_event True by simp
    next
      case False
      with Cons.prems Remove_event show ?thesis by simp
    qed
  next
    case (Raise e)
    with Cons.prems show ?thesis by simp
  qed
qed

lemma execute_invariant:
  "tokens_fresh s \<Longrightarrow> length (live_tokens s) \<le> 1 \<Longrightarrow>
     tokens_fresh (fst (execute env s task))
     \<and> length (live_tokens (fst (execute env s task))) \<le> 1"
  unfolding execute_def by (rule apply_effects_invariant)

lemma consumer_cycle_invariant:
  "consumer_cycle s feeds = Some (s', h) \<Longrightarrow> tokens_fresh s \<Longrightarrow>
     length (live_tokens s) \<le> 1 \<Longrightarrow>
     tokens_fresh s' \<and> length (live_tokens s') \<le> 1"
  by (auto simp: consumer_cycle_def tokens_fresh_def live_tokens_def split: list.splits)

lemma feed_invariant:
  "tokens_fresh s \<Longrightarrow> length (live_tokens s) \<le> 1 \<Longrightarrow>
     tokens_fresh (feed s) \<and> length (live_tokens (feed s)) \<le> 1"
  by (simp add: feed_def tokens_fresh_def live_tokens_def)

lemma new_invariant: "tokens_fresh wilder_new \<and> length (live_tokens wilder_new) \<le> 1"
  by (simp add: tokens_fresh_def live_tokens_def wilder_new_def)

lemma init_invariant:
  "tokens_fresh s \<Longrightarrow> length (live_tokens s) \<le> 1 \<Longrightarrow>
     tokens_fresh (fst (init s opts)) \<and> length (live_tokens (fst (init s opts))) \<le> 1"
  by (simp add: tokens_fresh_def live_tokens_def init_def Let_def)

text \<open>
  Claim C4. When a submission is admitted, every token that was pending has its flag set
  and is no longer pending when the critical section ends, and the fresh token is the
  only pending one; it is not cancelled. So after any sequence of submissions at most one
  pending token is not cancelled.
\<close>

theorem single_winner:
  assumes "tokens_fresh s" and "length (live_tokens s) \<le> 1"
  shows "(\<not> ctx_run_id (req_ctx r) < run_id s \<longrightarrow>
            (\<forall>e\<in>set (events s).
                e \<in> cancelled (fst (run_in_background s r))
                \<and> e \<notin> set (events (fst (run_in_background s r))))
            \<and> events (fst (run_in_background s r)) = [next_event s]
            \<and> live_tokens (fst (run_in_background s r)) = [next_event s])
       \<and> length (live_tokens (submit_all s rs)) \<le> 1"
proof -
  have "length (live_tokens (submit_all s rs)) \<le> 1"
    using live_tokens_submit_all [OF assms] by simp
  moreover have "next_event s \<notin> set (events s)" and "next_event s \<notin> cancelled s"
    using assms(1) by (auto simp: tokens_fresh_def)
  ultimately show ?thesis
    by (auto simp: admitted_state live_tokens_def)
qed

theorem single_winner_witness:
  "events (fst (run_in_background (fst (run_in_background ex_started (ex_req 1 1))) (ex_req 2 1)))
     = [1]
   \<and> cancelled (fst (run_in_background (fst (run_in_background ex_started (ex_req 1 1))) (ex_req 2 1)))
     = {0}
   \<and> events (fst (run_in_background ex_started (ex_req 1 1))) = [0]"
proof -
  let ?s = "fst (run_in_background ex_started (ex_req 1 1))"
  have s: "?s = wilder_new\<lparr>has_init := True,
      executor := Some \<lparr> max_workers = 2, tasks = [(0, ex_req 1 1)] \<rparr>, consumers := 1,
      next_event := 1, run_id := 1, events := [0]\<rparr>"
    by (simp add: run_in_background_def cancel_events_eq Let_def ex_started_eq
        wilder_new_def ex_req_def)
  have f: "tokens_fresh ?s" and l: "length (live_tokens ?s) \<le> 1"
    unfolding s by (simp_all add: tokens_fresh_def live_tokens_def wilder_new_def)
  have c: "cancelled (fst (run_in_background ?s (ex_req 2 1))) = {0}"
    unfolding s
    by (simp add: run_in_background_def cancel_events_eq Let_def wilder_new_def ex_req_def)
  from single_winner [OF f l, of "ex_req 2 1" "[]"] c show ?thesis
    unfolding s by (simp add: wilder_new_def ex_req_def)
qed

subsection \<open>Initialisation\<close>

lemma init_again: "has_init s \<Longrightarrow> init s opts = (s, None)"
  by (simp add: init_def)

lemma has_init_init: "has_init (fst (init s opts))"
  by (simp add: init_def Let_def)

lemma init_all_started: "has_init s \<Longrightarrow> init_all s os = s"
  by (induction os) (simp_all add: init_all_def init_again)

lemma init_all_new:
  "init_all wilder_new (o1 # os) = fst (init wilder_new o1)"
proof -
  have "init_all wilder_new (o1 # os) = init_all (fst (init wilder_new o1)) os"
    by (simp add: init_all_def)
  then show ?thesis by (simp add: init_all_started has_init_init)
qed

lemma init_all_at_most_once:
  "consumers (init_all wilder_new os) \<le> 1
   \<and> (executor (init_all wilder_new os) = None) = (consumers (init_all wilder_new os) = 0)"
proof (cases os)
  case Nil
  then show ?thesis by (simp add: init_all_def wilder_new_def)
next
  case (Cons o1 rest)
  have "init_all wilder_new os = fst (init wilder_new o1)"
    unfolding Cons by (rule init_all_new)
  then show ?thesis by (simp add: init_def wilder_new_def Let_def)
qed

text \<open>
  Claim C10 (amended). A call of \<open>init\<close> on a plugin that has been initialised
  returns at once: the state is the same whatever the options, and nothing is raised.
  From a new plugin, whatever the calls, the pool is built and the consumer thread
  started at most once, and both or neither; the first call with a positive worker
  count builds the pool with that count and starts one consumer thread, and after any
  further calls there is still that pool and one thread.
\<close>

theorem init_idempotent:
  "init (fst (init s o1)) o2 = (fst (init s o1), None)
   \<and> init_all (fst (init s o1)) os = fst (init s o1)
   \<and> (has_init s \<longrightarrow> init s o2 = (s, None))
   \<and> (0 < num_workers o1 \<longrightarrow>
        init_all wilder_new (o1 # os) =
          wilder_new\<lparr>has_init := True,
            executor := Some \<lparr> max_workers = num_workers o1, tasks = [] \<rparr>,
            consumers := 1\<rparr>)
   \<and> consumers (init_all wilder_new os) \<le> 1
   \<and> (executor (init_all wilder_new os) = None) = (consumers (init_all wilder_new os) = 0)"
proof -
  have "init_all wilder_new (o1 # os) = fst (init wilder_new o1)"
    by (rule init_all_new)
  then have "init (fst (init s o1)) o2 = (fst (init s o1), None)
   \<and> init_all (fst (init s o1)) os = fst (init s o1)
   \<and> (has_init s \<longrightarrow> init s o2 = (s, None))
   \<and> (0 < num_workers o1 \<longrightarrow>
        init_all wilder_new (o1 # os) =
          wilder_new\<lparr>has_init := True,
            executor := Some \<lparr> max_workers = num_workers o1, tasks = [] \<rparr>,
            consumers := 1\<rparr>)"
    by (simp add: init_again has_init_init init_all_started)
      (simp add: init_def wilder_new_def)
  with init_all_at_most_once [of os] show ?thesis by blast
qed

theorem init_idempotent_witness:
  "init_all wilder_new [\<lparr> num_workers = 4 \<rparr>, \<lparr> num_workers = 8 \<rparr>, \<lparr> num_workers = 0 \<rparr>]
     = wilder_new\<lparr>has_init := True,
         executor := Some \<lparr> max_workers = 4, tasks = [] \<rparr>, consumers := 1\<rparr>
   \<and> init (fst (init wilder_new \<lparr> num_workers = 4 \<rparr>)) \<lparr> num_workers = 8 \<rparr>
     = (fst (init wilder_new \<lparr> num_workers = 4 \<rparr>), None)"
  using init_idempotent [of wilder_new "\<lparr> num_workers = 4 \<rparr>" "\<lparr> num_workers = 8 \<rparr>"
      "[\<lparr> num_workers = 8 \<rparr>, \<lparr> num_workers = 0 \<rparr>]"]
  by simp

text \<open>The claim as stated fails where it says exactly once: the flag is set before the
  pool is built, so when the first call is refused for its worker count, the pool and
  the consumer thread are never built, whatever the later calls.\<close>

theorem init_idempotent_counterexample:
  "init wilder_new \<lparr> num_workers = 0 \<rparr>
     = (wilder_new\<lparr>has_init := True\<rparr>,
        Some (PyExn ValueError ''max_workers must be greater than 0''))
   \<and> init_all wilder_new [\<lparr> num_workers = 0 \<rparr>, \<lparr> num_workers = 4 \<rparr>]
     = wilder_new\<lparr>has_init := True\<rparr>
   \<and> executor (init_all wilder_new [\<lparr> num_workers = 0 \<rparr>, \<lparr> num_workers = 4 \<rparr>]) = None
   \<and> consumers (init_all wilder_new [\<lparr> num_workers = 0 \<rparr>, \<lparr> num_workers = 4 \<rparr>]) = 0"
  by (simp add: init_all_def init_def wilder_new_def)

subsection \<open>Cancelled handlers\<close>






























subsection \<open>The fast path of \<^verbatim>\<open>search\<close>\<close>

text \<open>
  A search request whose pattern is the empty string does not reach
  \<open>run_in_background\<close>: the function calls the host's
  \<^verbatim>\<open>wilder#pipeline#resolve\<close> once, with an empty list, and returns with the plugin's
  state as it was (no event constructed, nothing pending, nothing submitted to the pool,
  nothing put on the queue). Any other pattern is submitted with the buffer's lines
  rotated to start at the cursor.
\<close>

lemma search_fast_path:
  "search s nv c opts [] =
     (s, [\<lparr> h_function = ''wilder#pipeline#resolve'', h_ctx = HOpts opts, h_res = PList [] \<rparr>],
      None)
   \<and> (x \<noteq> [] \<longrightarrow>
        search s nv c opts x =
          (fst (run_in_background s
             (Search_req c opts x
                (slice_from (current_buffer nv) (cursor_row nv - 1)
                 @ slice_to (current_buffer nv) (cursor_row nv - 1)))),
           [],
           snd (run_in_background s
             (Search_req c opts x
                (slice_from (current_buffer nv) (cursor_row nv - 1)
                 @ slice_to (current_buffer nv) (cursor_row nv - 1))))))"
  by (simp add: search_def handle_def Let_def)

lemma search_submits_rotated:
  "submitted (fst (search ex_started ex_nvim (ex_ctx 1 1)
         \<lparr> engine = None, max_candidates = None \<rparr> ''t''))
     = [(0, Search_req (ex_ctx 1 1) \<lparr> engine = None, max_candidates = None \<rparr> ''t''
           [''two'', ''three'', ''one''])]"
  using search_fast_path [of ex_started ex_nvim "ex_ctx 1 1"
      "\<lparr> engine = None, max_candidates = None \<rparr>" "''t''"]
  by (simp add: ex_nvim_def slice_from_def slice_to_def slice_index_def run_in_background_def
      cancel_events_eq Let_def ex_started_eq wilder_new_def submitted_def ex_ctx_def)

text \<open>Every delivery of the consumer passes the entry's context to the host.\<close>

lemma deliver_context: "h_ctx (deliver args) = HCtx (e_ctx args)"
  by (simp add: deliver_def handle_def split: option.split)

text \<open>
  Claim C9 fails on the code. With an empty pattern the scheduler is bypassed and the
  host is called at once with an empty list, but the call is
  \<^verbatim>\<open>self.handle(args[1], [])\<close>: its first argument is the search options, not the
  request's context \<^verbatim>\<open>args[0]\<close>, so the call does not resolve the request.
\<close>

theorem search_empty_pattern_wrong_context:
  "search ex_started ex_nvim (ex_ctx 1 1) \<lparr> engine = None, max_candidates = None \<rparr> []
     = (ex_started,
        [\<lparr> h_function = ''wilder#pipeline#resolve'',
           h_ctx = HOpts \<lparr> engine = None, max_candidates = None \<rparr>, h_res = PList [] \<rparr>],
        None)
   \<and> h_ctx (deliver (resolve_entry (ex_ctx 1 1) (PList []))) = HCtx (ex_ctx 1 1)
   \<and> HOpts \<lparr> engine = None, max_candidates = None \<rparr> \<noteq> HCtx (ex_ctx 1 1)"
  by (simp add: search_def handle_def deliver_def resolve_entry_def)

subsection \<open>Tokens left pending\<close>

lemma apply_effects_no_remove:
  "Remove_event \<notin> set fs \<Longrightarrow> events (fst (apply_effects s event fs)) = events s"
proof (induction fs arbitrary: s)
  case Nil
  show ?case by simp
next
  case (Cons f fs)
  then show ?case by (cases f) simp_all
qed

lemma only_search_removes:
  "(\<forall>c opts x buf. req \<noteq> Search_req c opts x buf) \<Longrightarrow>
     Remove_event \<notin> set (effects (run_handler env is_set req))"
  by (cases req)
    (auto simp: sleep_handler_def uniq_handler_def sort_handler_def
      get_file_completion_handler_def get_users_handler_def filter_handler_def
      fuzzywuzzy_handler_def split: sum.split scan.split)

lemma token_stays_pending:
  "(\<forall>c opts x buf. req \<noteq> Search_req c opts x buf) \<Longrightarrow>
     events (fst (execute env s (event, req))) = events s"
  by (simp add: execute_def apply_effects_no_remove only_search_removes)

text \<open>
  Claim C6 fails on the code. Only \<open>search_handler\<close> has the \<^verbatim>\<open>finally\<close> clause
  that takes the event out of the pending list. After \<^verbatim>\<open>uniq\<close> is submitted and its
  handler has run to its end and put its result, its event is still pending.
\<close>

theorem uniq_handler_keeps_token:
  "events (fst (uniq ex_started (ex_ctx 1 1) [PStr ''b'', PStr ''a'', PStr ''b''])) = [0]
   \<and> execute ex_env (fst (uniq ex_started (ex_ctx 1 1) [PStr ''b'', PStr ''a'', PStr ''b'']))
        (0, Uniq_req (ex_ctx 1 1) [PStr ''b'', PStr ''a'', PStr ''b''])
     = ((fst (uniq ex_started (ex_ctx 1 1) [PStr ''b'', PStr ''a'', PStr ''b'']))
          \<lparr>queue := [resolve_entry (ex_ctx 1 1) (PList [PStr ''b'', PStr ''a''])]\<rparr>, None)
   \<and> events (fst (execute ex_env
        (fst (uniq ex_started (ex_ctx 1 1) [PStr ''b'', PStr ''a'', PStr ''b'']))
        (0, Uniq_req (ex_ctx 1 1) [PStr ''b'', PStr ''a'', PStr ''b'']))) = [0]"
  by (simp add: uniq_def run_in_background_def cancel_events_eq Let_def ex_started_eq
      wilder_new_def execute_def uniq_handler_def ex_ctx_def)

subsection \<open>Rejections\<close>

lemma fuzzywuzzy_handler_failure:
  "\<not> is_set 0 \<Longrightarrow> import_fuzz env = Inl e \<Longrightarrow>
     fuzzywuzzy_handler env is_set c candidates query partial =
       \<lparr> polled = 1, effects = [Put (reject_entry c ''python_filter: '' e)] \<rparr>"
  by (simp add: fuzzywuzzy_handler_def)

lemma filter_handler_failure:
  "\<not> is_set 0 \<Longrightarrow> import_re env eng = Inl e \<Longrightarrow>
     filter_handler env is_set c pattern candidates eng has_file_args =
       \<lparr> polled = 1, effects = [Put (reject_entry c ''python_filter: '' e)] \<rparr>"
  by (simp add: filter_handler_def)

text \<open>
  Claim C8 fails on the code. When \<^verbatim>\<open>fuzzywuzzy\<close> cannot be imported, the fuzzy
  match handler puts one rejection, and its message starts with \<^verbatim>\<open>python_filter: \<close>,
  the name of the filter operation.
\<close>

theorem fuzzywuzzy_handler_wrong_prefix:
  "fuzzywuzzy_handler ex_env never_set (ex_ctx 1 1) [''b'', ''a''] ''a'' True
     = \<lparr> polled = 1,
         effects =
           [Put \<lparr> e_ctx = ex_ctx 1 1,
                  e_res = PStr (''python_filter: No module named '' @ quoted ''fuzzywuzzy''),
                  e_command = Some ''reject'' \<rparr>] \<rparr>"
  by (simp add: fuzzywuzzy_handler_def ex_env_def never_set_def reject_entry_def)

subsection \<open>Capture extraction\<close>

lemma utf8_bytes_width:
  "\<not> (0xD800 \<le> c \<and> c < 0xE000) \<Longrightarrow> \<exists>bs. utf8_bytes c = Some bs \<and> length bs = utf8_width c"
  by (auto simp: utf8_bytes_def utf8_width_def)

lemma encode_utf8_length:
  "encodable s \<Longrightarrow> \<exists>bs. encode_utf8 s = Inr bs \<and> int (length bs) = utf8_length s"
proof (induction s)
  case Nil
  show ?case by (simp add: utf8_length_def)
next
  case (Cons c s)
  from Cons.prems have c: "\<not> (0xD800 \<le> c \<and> c < 0xE000)" and s: "encodable s"
    by (simp_all add: encodable_def)
  from utf8_bytes_width [OF c] obtain bs where bs: "utf8_bytes c = Some bs" "length bs = utf8_width c"
    by blast
  from Cons.IH [OF s] obtain rest where rest: "encode_utf8 s = Inr rest" "int (length rest) = utf8_length s"
    by blast
  from bs rest show ?case by (simp add: utf8_length_def)
qed

lemma encodable_take: "encodable s \<Longrightarrow> encodable (take n s)"
  unfolding encodable_def list_all_iff by (auto dest: in_set_takeD)

lemma encodable_drop: "encodable s \<Longrightarrow> encodable (drop n s)"
  unfolding encodable_def list_all_iff by (auto dest: in_set_dropD)

lemma encodable_slices:
  "encodable s \<Longrightarrow> encodable (slice_to s a)" "encodable s \<Longrightarrow> encodable (slice s a b)"
  by (simp_all add: slice_to_def slice_def encodable_take encodable_drop)

lemma slice_in_range:
  "0 \<le> a \<Longrightarrow> a \<le> b \<Longrightarrow> slice xs a b = take (nat (b - a)) (drop (nat a) xs)"
  by (simp add: slice_def slice_index_def take_drop nat_diff_distrib nat_le_eq_zle)

lemma captures_loop_spans:
  "encodable string \<Longrightarrow>
     captures_loop m string idxs captures
       = Inr (captures @ map (byte_span m string) (filter (reported m) idxs))"
proof (induction idxs arbitrary: captures)
  case Nil
  show ?case by simp
next
  case (Cons i idxs)
  show ?case
  proof (cases "reported m i")
    case False
    with Cons.IH [OF Cons.prems, of captures] show ?thesis
      by (auto simp: reported_def Let_def)
  next
    case True
    from encode_utf8_length [OF encodable_slices(1) [OF Cons.prems], of "fst (span m i)"]
    obtain b1 where b1: "encode_utf8 (slice_to string (fst (span m i))) = Inr b1"
      "int (length b1) = utf8_length (slice_to string (fst (span m i)))" by blast
    from encode_utf8_length [OF encodable_slices(2) [OF Cons.prems], of "fst (span m i)" "snd (span m i)"]
    obtain b2 where b2: "encode_utf8 (slice string (fst (span m i)) (snd (span m i))) = Inr b2"
      "int (length b2) = utf8_length (slice string (fst (span m i)) (snd (span m i)))" by blast
    have "captures_loop m string (i # idxs) captures
        = captures_loop m string idxs (captures @ [byte_span m string i])"
      using True b1 b2 by (simp add: reported_def Let_def byte_span_def)
    with Cons.IH [OF Cons.prems, of "captures @ [byte_span m string i]"] True
    show ?thesis by simp
  qed
qed

text \<open>
  Claim C5 (amended). \<open>extract_captures\<close> asks the engine's \<^verbatim>\<open>match\<close> function for
  a match, which \<^verbatim>\<open>re.match\<close> looks for at the beginning of the string only. Without
  a match, or with a match in which no group took part, the result is empty. Otherwise
  it is, for the groups 1 to \<^verbatim>\<open>lastindex\<close> that took part and are not empty, in
  order, the pair of the number of UTF-8 bytes before the group and the offset of the
  group's last byte.
\<close>

theorem extract_captures_spans:
  assumes "import_re env (case engine_name of Some name \<Rightarrow> name | None \<Rightarrow> ''re'') = Inr re"
    and "encodable string"
  shows "(re_match re pattern string = Inr None \<longrightarrow>
            extract_captures env pattern string engine_name = Inr [])
       \<and> (re_match re pattern string = Inr (Some m) \<and> lastindex m = None \<longrightarrow>
            extract_captures env pattern string engine_name = Inr [])
       \<and> (re_match re pattern string = Inr (Some m) \<and> lastindex m = Some n \<longrightarrow>
            extract_captures env pattern string engine_name
              = Inr (map (byte_span m string) (filter (reported m) [1..<n + 1])))"
  using assms captures_loop_spans [OF assms(2), of m "[1..<n + 1]" "[]"]
  by (auto simp: extract_captures_def Let_def)

lemma ex_match_abcd:
  "ex_match ''(ab)(cd)'' (ascii ''abcdyy'')
     = Inr (Some \<lparr> lastindex = Some 2, span = lookup_span [(2, (2, 4)), (1, (0, 2))] \<rparr>)"
  by (simp add: ex_match_def ascii_def is_plain_def numeral_2_eq_2)

theorem extract_captures_spans_witness:
  "extract_captures ex_env ''(ab)(cd)'' (ascii ''abcdyy'') None = Inr [[0, 1], [2, 3]]
   \<and> extract_captures ex_utf8_env ''..(b)'' [0xE9, 0x20AC, 0x62] None = Inr [[5, 5]]"
proof -
  let ?re = "\<lparr> re_compile = ex_compile, re_match = ex_match \<rparr>"
  let ?m = "\<lparr> lastindex = Some 2, span = lookup_span [(2, (2, 4)), (1, (0, 2))] \<rparr>"
  have i: "import_re ex_env (case None of Some name \<Rightarrow> name | None \<Rightarrow> ''re'') = Inr ?re"
    by (simp add: ex_env_def)
  have e: "encodable (ascii ''abcdyy'')" by (simp add: encodable_def ascii_def)
  have m: "re_match ?re ''(ab)(cd)'' (ascii ''abcdyy'') = Inr (Some ?m)"
    by (simp add: ex_match_abcd)
  have first: "extract_captures ex_env ''(ab)(cd)'' (ascii ''abcdyy'') None = Inr [[0, 1], [2, 3]]"
    using extract_captures_spans [OF i e, of "''(ab)(cd)''" ?m 2] m
    by (simp add: reported_def upt_rec byte_span_def utf8_length_def utf8_width_def
        slice_to_def slice_def slice_index_def ascii_def)
  let ?re8 = "\<lparr> re_compile = ex_compile,
      re_match = (\<lambda>p s. Inr (Some \<lparr> lastindex = Some 1,
         span = (\<lambda>i. if i = 1 then (2, 3) else (- 1, - 1)) \<rparr>)) \<rparr>"
  let ?m8 = "\<lparr> lastindex = Some 1, span = (\<lambda>i. if i = (1::nat) then (2::int, 3::int) else (- 1, - 1)) \<rparr>"
  have i8: "import_re ex_utf8_env (case None of Some name \<Rightarrow> name | None \<Rightarrow> ''re'') = Inr ?re8"
    by (simp add: ex_utf8_env_def)
  have e8: "encodable [0xE9, 0x20AC, 0x62]" by (simp add: encodable_def)
  have second: "extract_captures ex_utf8_env ''..(b)'' [0xE9, 0x20AC, 0x62] None = Inr [[5, 5]]"
    using extract_captures_spans [OF i8 e8, of "''..(b)''" ?m8 1]
    by (simp add: reported_def upt_rec byte_span_def utf8_length_def utf8_width_def
        slice_to_def slice_def slice_index_def)
  from first second show ?thesis by simp
qed

text \<open>The claim as stated fails on its own example: the pattern does not match at the
  beginning of \<^verbatim>\<open>xxabcdyy\<close>, so the result is empty. And an inner group whose number
  is above \<^verbatim>\<open>lastindex\<close> is not reported.\<close>

theorem extract_captures_counterexample:
  "extract_captures ex_env ''(ab)(cd)'' (ascii ''xxabcdyy'') None = Inr []
   \<and> extract_captures ex_env ''(ab)(cd)'' (ascii ''xxabcdyy'') None \<noteq> Inr [[2, 3], [4, 5]]
   \<and> extract_captures ex_env ''((a)(b))'' (ascii ''ab'') None = Inr [[0, 1]]"
  by (simp add: extract_captures_def ex_env_def ex_match_def ascii_def Let_def is_plain_def
      upt_rec utf8_bytes_def slice_to_def slice_def slice_index_def)

subsection \<open>File completion\<close>

lemma startswith_dot: "startswith f ''.'' \<longleftrightarrow> (\<exists>r. f = CHR ''.'' # r)"
  by (cases f) (auto simp: startswith_def)

lemma entry_step_hidden:
  "startswith (d_name entry) ''.'' \<Longrightarrow> \<not> show_hidden \<Longrightarrow>
     entry_step env directory expand_type wildignore_list has_wildcard pattern show_hidden
       path_prefix entry = Inr None"
  by (simp add: entry_step_def)

lemma entry_step_visible:
  assumes "entry_step env directory expand_type wildignore_list False pattern False
       path_prefix entry = Inr (Some f)"
  shows "\<not> startswith f ''.''"
proof -
  have n: "\<not> startswith (d_name entry) ''.''"
    using assms by (auto simp: entry_step_def)
  have "f = d_name entry \<or> f = d_name entry @ ''/''"
    using assms
    by (auto simp: entry_step_def entry_tail_def split: if_splits sum.splits)
  with n show ?thesis
    by (cases "d_name entry") (auto simp: startswith_dot)
qed

lemma scan_entries_visible:
  "scan_entries env is_set directory expand_type wildignore_list False pattern False
       path_prefix it k res = Go k' res' \<Longrightarrow>
     \<forall>f\<in>set res'. f \<in> set res \<or> \<not> startswith f ''.''"
proof (induction it arbitrary: k res)
  case Nil
  then show ?case by simp
next
  case (Cons entry it)
  from Cons.prems have ns: "\<not> is_set k" by (auto split: if_splits)
  show ?case
  proof (cases "entry_step env directory expand_type wildignore_list False pattern False
       path_prefix entry")
    case (Inl e)
    with Cons.prems ns have "scan_entries env is_set directory expand_type wildignore_list
        False pattern False path_prefix it (Suc k) res = Go k' res'"
      by (simp split: if_splits)
    then show ?thesis by (rule Cons.IH)
  next
    case (Inr r)
    show ?thesis
    proof (cases r)
      case None
      with Cons.prems ns Inr have "scan_entries env is_set directory expand_type
          wildignore_list False pattern False path_prefix it (Suc k) res = Go k' res'"
        by simp
      then show ?thesis by (rule Cons.IH)
    next
      case (Some f)
      with Cons.prems ns Inr have "scan_entries env is_set directory expand_type
          wildignore_list False pattern False path_prefix it (Suc k) (res @ [f]) = Go k' res'"
        by simp
      from Cons.IH [OF this] entry_step_visible [of env directory expand_type wildignore_list
          pattern path_prefix entry f] Inr Some
      show ?thesis by auto
    qed
  qed
qed

lemma scan_dirs_visible:
  "\<forall>d\<in>set directories. \<not> startswith (snd (path_split (path_join d expand_arg))) ''.'' \<Longrightarrow>
     scan_dirs env is_set expand_arg expand_type False path_prefix wildignore_list
       directories k res = Go k' res' \<Longrightarrow>
     \<forall>f\<in>set res'. f \<in> set res \<or> \<not> startswith f ''.''"
proof (induction directories arbitrary: k res)
  case Nil
  then show ?case by simp
next
  case (Cons directory directories)
  from Cons.prems(2) have ns: "\<not> is_set k" by (auto split: if_splits)
  from Cons.prems(1) have
    hid: "\<not> startswith (snd (path_split (path_join directory expand_arg))) ''.''"
    and rest: "\<forall>d\<in>set directories.
        \<not> startswith (snd (path_split (path_join d expand_arg))) ''.''"
    by simp_all
  show ?case
  proof (cases "directory = []")
    case True
    with Cons.prems(2) ns have "scan_dirs env is_set expand_arg expand_type False path_prefix
        wildignore_list directories (Suc k) res = Go k' res'" by simp
    from Cons.IH [OF rest this] show ?thesis .
  next
    case False
    show ?thesis
    proof (cases "scandir env (fst (path_split (path_join directory expand_arg)))")
      case (Inl e)
      with Cons.prems(2) ns False have "scan_dirs env is_set expand_arg expand_type False
          path_prefix wildignore_list directories (Suc k) res = Go k' res'"
        by (simp add: Let_def split: if_splits)
      from Cons.IH [OF rest this] show ?thesis .
    next
      case (Inr it)
      let ?inner = "scan_entries env is_set directory expand_type wildignore_list False
          (snd (path_split (path_join directory expand_arg)) @ ''*'') False path_prefix it
          (Suc k) res"
      from Cons.prems(2) ns False Inr hid obtain k1 res1 where
        inner: "?inner = Go k1 res1"
        and after: "scan_dirs env is_set expand_arg expand_type False path_prefix
          wildignore_list directories k1 res1 = Go k' res'"
        by (cases ?inner) (simp_all add: Let_def)
      from scan_entries_visible [OF inner] Cons.IH [OF rest after] show ?thesis by blast
    qed
  qed
qed

lemma finish_completion_dot:
  "finish_completion ''.'' has_wildcard res = ''./'' # ''../'' # sort res"
  by (simp add: finish_completion_def path_dirname_def path_split_def Let_def)

lemma finish_completion_dotdot:
  "finish_completion ''..'' has_wildcard res = ''../'' # sort res"
  by (simp add: finish_completion_def path_dirname_def path_split_def Let_def)

lemma ex_scan_dot:
  "scan_dirs ex_env never_set ''.'' ''file'' False [] [[]] [''/d''] 1 [] = Go 5 [''.hidden'']"
  by (simp add: ex_env_def ex_scandir_def ex_file_def ex_dir_def never_set_def Let_def
      path_join_def path_split_def startswith_def endswith_def entry_step_def entry_tail_def
      is_oserror_def)

lemma ex_scan_empty:
  "scan_dirs ex_env never_set [] ''file'' False [] [[]] [''/d''] 1 [] = Go 5 [''a.txt'', ''sub/'']"
  by (simp add: ex_env_def ex_scandir_def ex_file_def ex_dir_def never_set_def Let_def
      path_join_def path_split_def startswith_def endswith_def entry_step_def entry_tail_def
      is_oserror_def)

text \<open>
  Claim C7 (amended). An entry whose name starts with a dot is skipped unless the typed
  prefix, the last component of the directory joined with the argument, starts with a
  dot; so without a wildcard, when no typed prefix starts with a dot, no name collected
  starts with one. The names collected are sorted, and for the argument \<^verbatim>\<open>.\<close> the
  entries \<^verbatim>\<open>./\<close> and \<^verbatim>\<open>../\<close> are put before them, for \<^verbatim>\<open>..\<close> the entry
  \<^verbatim>\<open>../\<close>. In the directory that holds \<^verbatim>\<open>a.txt\<close>, \<^verbatim>\<open>.hidden\<close> and
  \<^verbatim>\<open>sub/\<close>, the argument \<^verbatim>\<open>.\<close> gives \<^verbatim>\<open>./\<close>, \<^verbatim>\<open>../\<close>, \<^verbatim>\<open>.hidden\<close>
  (the prefix starts with a dot, and the other names do not match \<^verbatim>\<open>.*\<close>); the
  empty argument gives \<^verbatim>\<open>a.txt\<close>, \<^verbatim>\<open>sub/\<close>.
\<close>

theorem file_completion_hidden:
  "(startswith (d_name entry) ''.'' \<and> \<not> show_hidden \<longrightarrow>
      entry_step env directory expand_type wildignore_list has_wildcard pattern show_hidden
        path_prefix entry = Inr None)
   \<and> ((\<forall>d\<in>set directories. \<not> startswith (snd (path_split (path_join d expand_arg))) ''.'')
       \<and> scan_dirs env is_set expand_arg expand_type False path_prefix wildignore_list
            directories 1 [] = Go k res
       \<longrightarrow> (\<forall>f\<in>set res. \<not> startswith f ''.''))
   \<and> finish_completion ''.'' has_wildcard res = ''./'' # ''../'' # sort res
   \<and> finish_completion ''..'' has_wildcard res = ''../'' # sort res
   \<and> get_file_completion_handler ex_env never_set c ''/d'' ''.'' ''file'' False [] [''/d''] []
       = \<lparr> polled = 5,
           effects = [Put (resolve_entry c (strs [''./'', ''../'', ''.hidden'']))] \<rparr>
   \<and> get_file_completion_handler ex_env never_set c ''/d'' [] ''file'' False [] [''/d''] []
       = \<lparr> polled = 5, effects = [Put (resolve_entry c (strs [''a.txt'', ''sub/'']))] \<rparr>"
proof -
  have vis: "(\<forall>d\<in>set directories. \<not> startswith (snd (path_split (path_join d expand_arg))) ''.'')
       \<and> scan_dirs env is_set expand_arg expand_type False path_prefix wildignore_list
            directories 1 [] = Go k res
       \<longrightarrow> (\<forall>f\<in>set res. \<not> startswith f ''.'')"
    using scan_dirs_visible [of directories expand_arg env is_set expand_type path_prefix
        wildignore_list 1 "[]" k res]
    by auto
  have dot: "get_file_completion_handler ex_env never_set c ''/d'' ''.'' ''file'' False []
        [''/d''] []
      = \<lparr> polled = 5,
          effects = [Put (resolve_entry c (strs [''./'', ''../'', ''.hidden'']))] \<rparr>"
    using ex_scan_dot
    by (simp add: get_file_completion_handler_def finish_completion_dot never_set_def
        del: scan_dirs.simps)
  have emp: "get_file_completion_handler ex_env never_set c ''/d'' [] ''file'' False []
        [''/d''] []
      = \<lparr> polled = 5, effects = [Put (resolve_entry c (strs [''a.txt'', ''sub/'']))] \<rparr>"
    using ex_scan_empty
    by (simp add: get_file_completion_handler_def finish_completion_def Let_def
        path_dirname_def path_split_def never_set_def del: scan_dirs.simps)
  from vis dot emp show ?thesis
    by (simp add: entry_step_hidden finish_completion_dot finish_completion_dotdot)
qed

theorem file_completion_hidden_witness:
  "scan_dirs ex_env never_set [] ''file'' False [] [[]] [''/d''] 1 [] = Go 5 [''a.txt'', ''sub/'']
   \<and> \<not> startswith (snd (path_split (path_join ''/d'' []))) ''.''
   \<and> \<not> startswith ''a.txt'' ''.'' \<and> \<not> startswith ''sub/'' ''.''
   \<and> entry_step ex_env ''/d'' ''file'' [[]] False ''*'' False [] (ex_file ''.hidden'') = Inr None"
proof -
  have a: "\<forall>d\<in>set [''/d'']. \<not> startswith (snd (path_split (path_join d []))) ''.''"
    by (simp add: path_join_def path_split_def startswith_def endswith_def)
  have b: "startswith (d_name (ex_file ''.hidden'')) ''.'' \<and> \<not> False"
    by (simp add: ex_file_def startswith_def)
  note t = file_completion_hidden [of "ex_file ''.hidden''" False ex_env "''/d''" "''file''"
      "[[]]" False "''*''" "[]" "[''/d'']" "[]" never_set 5 "[''a.txt'', ''sub/'']" "ex_ctx 1 1"]
  from t have t1: "startswith (d_name (ex_file ''.hidden'')) ''.'' \<and> \<not> False \<longrightarrow>
      entry_step ex_env ''/d'' ''file'' [[]] False ''*'' False [] (ex_file ''.hidden'') = Inr None"
    by (rule conjunct1)
  from t have t2: "(\<forall>d\<in>set [''/d'']. \<not> startswith (snd (path_split (path_join d []))) ''.'')
       \<and> scan_dirs ex_env never_set [] ''file'' False [] [[]] [''/d''] 1 [] = Go 5 [''a.txt'', ''sub/'']
       \<longrightarrow> (\<forall>f\<in>set [''a.txt'', ''sub/'']. \<not> startswith f ''.'')"
    by (rule conjunct2 [THEN conjunct1])
  from t1 b have hidden: "entry_step ex_env ''/d'' ''file'' [[]] False ''*'' False []
      (ex_file ''.hidden'') = Inr None"
    by (rule mp)
  from a ex_scan_empty have "(\<forall>d\<in>set [''/d'']. \<not> startswith (snd (path_split (path_join d []))) ''.'')
       \<and> scan_dirs ex_env never_set [] ''file'' False [] [[]] [''/d''] 1 [] = Go 5 [''a.txt'', ''sub/'']"
    by (rule conjI)
  with t2 have vis: "\<forall>f\<in>set [''a.txt'', ''sub/'']. \<not> startswith f ''.''"
    by (rule mp)
  then have "\<not> startswith ''a.txt'' ''.''" and "\<not> startswith ''sub/'' ''.''"
    by (simp_all del: scan_dirs.simps)
  moreover from a have "\<not> startswith (snd (path_split (path_join ''/d'' []))) ''.''"
    by (simp del: scan_dirs.simps)
  ultimately show ?thesis using ex_scan_empty hidden by blast
qed

text \<open>The claim as stated fails on its example: with the argument \<^verbatim>\<open>.\<close> the hidden
  entry is the only one listed after the navigation entries.\<close>

theorem file_completion_counterexample:
  "get_file_completion_handler ex_env never_set (ex_ctx 1 1) ''/d'' ''.'' ''file'' False []
       [''/d''] []
     = \<lparr> polled = 5,
         effects =
           [Put (resolve_entry (ex_ctx 1 1) (strs [''./'', ''../'', ''.hidden'']))] \<rparr>
   \<and> strs [''./'', ''../'', ''.hidden''] \<noteq> strs [''./'', ''../'', ''a.txt'', ''sub/'']"
  using ex_scan_dot
  by (simp add: get_file_completion_handler_def finish_completion_dot never_set_def strs_def
      del: scan_dirs.simps)

end
